theory Spec2Isabelle
  imports Complex_Main
begin

section \<open>Content gating service: data model\<close>

text \<open>
  The development embeds \<^verbatim>\<open>src/backend/services/content-gating.js\<close> (class
  \<^verbatim>\<open>ContentGatingService\<close>) together with the tables and the PL/pgSQL function
  \<^verbatim>\<open>calculate_course_completion\<close> of the database schema it queries
  (\<^verbatim>\<open>src/unnamed/part_007\<close>).

  Conventions of the embedding:
  \<^item> a UUID is a natural number; a timestamp (\<^verbatim>\<open>Date\<close>, \<^verbatim>\<open>TIMESTAMP\<close>) is an integer
    count of milliseconds; every \<^verbatim>\<open>new Date()\<close> of one service call reads the same
    clock value \<open>now\<close>, passed as an argument;
  \<^item> a table is the list of its rows, a query is a nested loop over these lists, and
    \<^verbatim>\<open>rows[0]\<close> is the head of the result;
  \<^item> a nullable column is an \<open>option\<close>; a nullable boolean column is a \<open>bool\<close> with
    \<^verbatim>\<open>NULL\<close> read as \<open>False\<close>, which is how both JavaScript's truthiness test and
    SQL's \<^verbatim>\<open>= true\<close> treat it;
  \<^item> columns that the service selects but never reads (title, email, role, plan,
    \<^verbatim>\<open>requires_assessment\<close>, \<^verbatim>\<open>course_id\<close>/\<^verbatim>\<open>module_id\<close> of a content row) are left out;
  \<^item> an exception is a value: a function that can raise returns \<open>error + 'a\<close>.
\<close>

type_synonym uuid = nat
type_synonym timestamp = int

datatype sub_status = Active | Cancelled | Expired | Trial
datatype content_level = Beginner | Intermediate | Advanced
datatype progress_status = Not_started | In_progress | Completed

text \<open>The \<^verbatim>\<open>contentType\<close> argument is a string; every string other than the three
  known ones takes the \<^verbatim>\<open>default\<close> branch of \<^verbatim>\<open>getContentDetails\<close>.\<close>

datatype content_type = Course | Module | Lesson | Other_type

record user_row =
  u_id :: uuid
  u_is_active :: bool
  u_is_verified :: bool

record subscription_row =
  s_user_id :: uuid
  s_status :: sub_status
  s_current_period_end :: "timestamp option"
  s_trial_end :: "timestamp option"

record course_row =
  c_id :: uuid
  c_level :: content_level
  c_prerequisites :: "uuid list option"
  c_is_published :: bool
  c_is_free :: bool
  c_requires_subscription :: bool

record module_row =
  m_id :: uuid
  m_course_id :: uuid
  m_prerequisites :: "uuid list option"

record lesson_row =
  l_id :: uuid
  l_module_id :: uuid

record progress_row =
  up_user_id :: uuid
  up_course_id :: uuid
  up_module_id :: "uuid option"
  up_lesson_id :: "uuid option"
  up_status :: progress_status

record enrollment_row =
  e_id :: uuid
  e_user_id :: uuid
  e_course_id :: uuid
  e_expires_at :: "timestamp option"
  e_is_active :: bool

record database =
  users :: "user_row list"
  subscriptions :: "subscription_row list"
  courses :: "course_row list"
  modules :: "module_row list"
  lessons :: "lesson_row list"
  user_progress :: "progress_row list"
  enrollments :: "enrollment_row list"

datatype error =
  Numeric_overflow
  | Unique_violation
  | Foreign_key_violation
  | Redis_error

subsection \<open>Access results\<close>

datatype decision_code =
  ACCESS_GRANTED
  | CONTENT_NOT_PUBLISHED
  | USER_NOT_VERIFIED
  | SUBSCRIPTION_REQUIRED
  | SUBSCRIPTION_EXPIRED
  | PREREQUISITE_LEVEL_NOT_COMPLETED
  | PREREQUISITES_NOT_MET
  | NOT_ENROLLED
  | ENROLLMENT_INACTIVE
  | ENROLLMENT_EXPIRED
  | CONTENT_NOT_FOUND
  | USER_NOT_FOUND
  | SYSTEM_ERROR
  | ALREADY_ENROLLED

datatype metadata =
  Empty_metadata
  | Level_metadata (requiredCompletion: int) (currentCompletion: int)
  | Prerequisite_metadata (incompletePrerequisites: "uuid list")

text \<open>A result object. The checks answer either with the bare object
  \<^verbatim>\<open>{ hasAccess: true }\<close>, whose other properties are undefined (\<open>None\<close>), or with
  an object built by \<^verbatim>\<open>createAccessResult\<close>.\<close>

record access_result =
  hasAccess :: bool
  code :: "decision_code option"
  message :: "string option"
  metadata :: "metadata option"
  timestamp :: "timestamp option"

definition createAccessResult ::
  "timestamp \<Rightarrow> bool \<Rightarrow> decision_code \<Rightarrow> string \<Rightarrow> metadata \<Rightarrow> access_result" where
  "createAccessResult now hasAccess' code' message' metadata' =
     \<lparr>hasAccess = hasAccess', code = Some code', message = Some message',
      metadata = Some metadata', timestamp = Some now\<rparr>"

definition has_access_only :: access_result where
  "has_access_only =
     \<lparr>hasAccess = True, code = None, message = None, metadata = None, timestamp = None\<rparr>"

text \<open>Decimal rendering of a number inside a template string.\<close>

fun digits_of :: "nat \<Rightarrow> string" where
  "digits_of n =
     (if n < 10 then [''0123456789'' ! n]
      else digits_of (n div 10) @ [''0123456789'' ! (n mod 10)])"

definition number_string :: "int \<Rightarrow> string" where
  "number_string i = (if i < 0 then CHR ''-'' # digits_of (nat (- i)) else digits_of (nat i))"

subsection \<open>Rows handed to the checks\<close>

text \<open>The row of \<^verbatim>\<open>getUserWithSubscription\<close>: a user joined with one subscription, the
  subscription columns \<^verbatim>\<open>NULL\<close> when the user has none.\<close>

record user =
  user_id :: uuid
  is_verified :: bool
  subscription_status :: "sub_status option"
  current_period_end :: "timestamp option"
  trial_end :: "timestamp option"

text \<open>The row of \<^verbatim>\<open>getContentDetails\<close>. The lesson query selects no
  \<^verbatim>\<open>prerequisites\<close> column (the lessons table has none), so the property is undefined
  (\<open>None\<close>) on a lesson; on a course or module it is the nullable array column.\<close>

record content =
  content_id :: uuid
  level :: content_level
  is_published :: bool
  is_free :: bool
  requires_subscription :: bool
  prerequisites :: "uuid list option"

definition first_row :: "'a list \<Rightarrow> 'a option" where
  "first_row rows = (case rows of [] \<Rightarrow> None | r # _ \<Rightarrow> Some r)"

definition user_of :: "user_row \<Rightarrow> subscription_row option \<Rightarrow> user" where
  "user_of u s =
     \<lparr>user_id = u_id u, is_verified = u_is_verified u,
      subscription_status = map_option s_status s,
      current_period_end = Option.bind s s_current_period_end,
      trial_end = Option.bind s s_trial_end\<rparr>"

definition left_join_subscriptions :: "database \<Rightarrow> user_row \<Rightarrow> user list" where
  "left_join_subscriptions db u =
     (case filter (\<lambda>s. s_user_id s = u_id u) (subscriptions db) of
        [] \<Rightarrow> [user_of u None]
      | ss \<Rightarrow> map (\<lambda>s. user_of u (Some s)) ss)"

definition getUserWithSubscription :: "database \<Rightarrow> uuid \<Rightarrow> user option" where
  "getUserWithSubscription db userId =
     first_row
       (concat (map (left_join_subscriptions db)
          (filter (\<lambda>u. u_id u = userId \<and> u_is_active u) (users db))))"

definition content_of_course :: "course_row \<Rightarrow> content" where
  "content_of_course c =
     \<lparr>content_id = c_id c, level = c_level c, is_published = c_is_published c,
      is_free = c_is_free c, requires_subscription = c_requires_subscription c,
      prerequisites = c_prerequisites c\<rparr>"

definition content_of_module :: "module_row \<Rightarrow> course_row \<Rightarrow> content" where
  "content_of_module m c =
     \<lparr>content_id = m_id m, level = c_level c, is_published = c_is_published c,
      is_free = c_is_free c, requires_subscription = c_requires_subscription c,
      prerequisites = m_prerequisites m\<rparr>"

definition content_of_lesson :: "lesson_row \<Rightarrow> course_row \<Rightarrow> content" where
  "content_of_lesson l c =
     \<lparr>content_id = l_id l, level = c_level c, is_published = c_is_published c,
      is_free = c_is_free c, requires_subscription = c_requires_subscription c,
      prerequisites = None\<rparr>"

definition getContentDetails :: "database \<Rightarrow> uuid \<Rightarrow> content_type \<Rightarrow> content option" where
  "getContentDetails db contentId contentType =
     (case contentType of
        Course \<Rightarrow>
          first_row (map content_of_course (filter (\<lambda>c. c_id c = contentId) (courses db)))
      | Module \<Rightarrow>
          first_row
            (concat (map (\<lambda>m. map (content_of_module m)
                            (filter (\<lambda>c. m_course_id m = c_id c) (courses db)))
               (filter (\<lambda>m. m_id m = contentId) (modules db))))
      | Lesson \<Rightarrow>
          first_row
            (concat (map (\<lambda>l. concat (map (\<lambda>m. map (content_of_lesson l)
                                          (filter (\<lambda>c. m_course_id m = c_id c) (courses db)))
                             (filter (\<lambda>m. l_module_id l = m_id m) (modules db))))
               (filter (\<lambda>l. l_id l = contentId) (lessons db))))
      | Other_type \<Rightarrow> None)"

section \<open>The checks\<close>

subsection \<open>Subscription\<close>

definition checkSubscriptionAccess :: "timestamp \<Rightarrow> user \<Rightarrow> content \<Rightarrow> access_result" where
  "checkSubscriptionAccess now usr cnt =
     (if is_free cnt then has_access_only
      else if requires_subscription cnt then
        (if subscription_status usr \<noteq> Some Active then
           (if (case trial_end usr of None \<Rightarrow> False | Some t \<Rightarrow> t > now)
            then has_access_only
            else createAccessResult now False SUBSCRIPTION_REQUIRED
                   ''Active subscription required'' Empty_metadata)
         else if (case current_period_end usr of None \<Rightarrow> False | Some t \<Rightarrow> t < now)
         then createAccessResult now False SUBSCRIPTION_EXPIRED
                ''Subscription has expired'' Empty_metadata
         else has_access_only)
      else has_access_only)"

subsection \<open>Course completion and the level gate\<close>

text \<open>
  \<^verbatim>\<open>calculate_course_completion\<close> is PL/pgSQL. Its two counts are joins; the quotient
  is computed in \<^verbatim>\<open>numeric\<close> and assigned to a variable of type \<^verbatim>\<open>DECIMAL(5,2)\<close>, which
  rounds it to two decimal places (half away from zero; the operand is never negative
  here) and raises \<^verbatim>\<open>numeric field overflow\<close> when the rounded value needs more than
  three integer digits. The numeric quotient itself carries at least sixteen significant
  digits, far more than the two kept, and is modelled as the exact rational. The counts
  are unbounded naturals.
\<close>

definition course_modules_of :: "database \<Rightarrow> uuid \<Rightarrow> lesson_row \<Rightarrow> module_row list" where
  "course_modules_of db courseId l =
     filter (\<lambda>m. l_module_id l = m_id m \<and> m_course_id m = courseId) (modules db)"

definition total_lessons :: "database \<Rightarrow> uuid \<Rightarrow> nat" where
  "total_lessons db courseId =
     length (concat (map (course_modules_of db courseId) (lessons db)))"

definition completed_lessons :: "database \<Rightarrow> uuid \<Rightarrow> uuid \<Rightarrow> nat" where
  "completed_lessons db userId courseId =
     length
       (concat (map (\<lambda>up. concat (map (course_modules_of db courseId)
                            (filter (\<lambda>l. up_lesson_id up = Some (l_id l)) (lessons db))))
          (filter (\<lambda>up. up_user_id up = userId \<and> up_status up = Completed)
             (user_progress db))))"

definition to_decimal_5_2 :: "rat \<Rightarrow> error + rat" where
  "to_decimal_5_2 x =
     (let r = of_int \<lfloor>x * 100 + 1 / 2\<rfloor> / 100
      in if r < 1000 then Inr r else Inl Numeric_overflow)"

definition calculate_course_completion :: "database \<Rightarrow> uuid \<Rightarrow> uuid \<Rightarrow> error + rat" where
  "calculate_course_completion db userId courseId =
     (if total_lessons db courseId > 0
      then to_decimal_5_2
             (of_nat (completed_lessons db userId courseId)
                / of_nat (total_lessons db courseId) * 100)
      else Inr 0)"

text \<open>A query whose select list calls a function that raises on some row fails as a
  whole.\<close>

fun collect :: "(error + 'a) list \<Rightarrow> error + 'a list" where
  "collect [] = Inr []"
| "collect (Inl e # _) = Inl e"
| "collect (Inr x # rs) = (case collect rs of Inl e \<Rightarrow> Inl e | Inr xs \<Rightarrow> Inr (x # xs))"

text \<open>\<^verbatim>\<open>Math.round\<close> rounds to the nearest integer, a tie towards \<open>+\<infinity>\<close>. The
  driver hands the numeric average over as a decimal string, which \<^verbatim>\<open>Math.round\<close>
  converts to a number; the conversion is taken to be exact.\<close>

definition math_round :: "rat \<Rightarrow> int" where
  "math_round x = \<lfloor>x + 1 / 2\<rfloor>"

definition level_courses :: "database \<Rightarrow> content_level \<Rightarrow> course_row list" where
  "level_courses db lvl = filter (\<lambda>c. c_level c = lvl \<and> c_is_published c) (courses db)"

definition getLevelCompletion :: "database \<Rightarrow> uuid \<Rightarrow> content_level \<Rightarrow> error + int" where
  "getLevelCompletion db userId lvl =
     (case collect (map (\<lambda>c. calculate_course_completion db userId (c_id c))
                      (level_courses db lvl)) of
        Inl e \<Rightarrow> Inl e
      | Inr [] \<Rightarrow> Inr 0
      | Inr ps \<Rightarrow> Inr (math_round (sum_list ps / of_nat (length ps))))"

definition level_denied :: "timestamp \<Rightarrow> string \<Rightarrow> int \<Rightarrow> access_result" where
  "level_denied now name completion =
     createAccessResult now False PREREQUISITE_LEVEL_NOT_COMPLETED
       (name @ '' level must be 80% complete. Current: '' @ number_string completion @ ''%'')
       (Level_metadata 80 completion)"

definition checkLevelAccess ::
  "database \<Rightarrow> timestamp \<Rightarrow> uuid \<Rightarrow> content \<Rightarrow> error + access_result" where
  "checkLevelAccess db now userId cnt =
     (case level cnt of
        Beginner \<Rightarrow> Inr has_access_only
      | Intermediate \<Rightarrow>
          (case getLevelCompletion db userId Beginner of
             Inl e \<Rightarrow> Inl e
           | Inr beginnerCompletion \<Rightarrow>
               if beginnerCompletion < 80
               then Inr (level_denied now ''Beginner'' beginnerCompletion)
               else Inr has_access_only)
      | Advanced \<Rightarrow>
          (case getLevelCompletion db userId Intermediate of
             Inl e \<Rightarrow> Inl e
           | Inr intermediateCompletion \<Rightarrow>
               if intermediateCompletion < 80
               then Inr (level_denied now ''Intermediate'' intermediateCompletion)
               else Inr has_access_only))"

subsection \<open>Prerequisites\<close>

text \<open>The batched query: every element of the prerequisite array is left-joined with
  the user's progress rows that are completed and carry the element in the column chosen
  by the content type (\<^verbatim>\<open>course_id\<close> for a course, \<^verbatim>\<open>module_id\<close> otherwise). An element
  with no such row yields one row with \<^verbatim>\<open>completed = false\<close>.\<close>

definition prerequisite_match ::
  "uuid \<Rightarrow> content_type \<Rightarrow> uuid \<Rightarrow> progress_row \<Rightarrow> bool" where
  "prerequisite_match userId contentType prerequisite_id up =
     (up_user_id up = userId
      \<and> (if contentType = Course then up_course_id up = prerequisite_id
         else up_module_id up = Some prerequisite_id)
      \<and> up_status up = Completed)"

definition prerequisite_rows ::
  "database \<Rightarrow> uuid \<Rightarrow> content_type \<Rightarrow> uuid list \<Rightarrow> (uuid \<times> bool) list" where
  "prerequisite_rows db userId contentType prerequisiteIds =
     concat (map (\<lambda>prerequisite_id.
        (case filter (prerequisite_match userId contentType prerequisite_id)
                (user_progress db) of
           [] \<Rightarrow> [(prerequisite_id, False)]
         | ups \<Rightarrow> map (\<lambda>up. (prerequisite_id, up_status up = Completed)) ups))
       prerequisiteIds)"

definition checkPrerequisites ::
  "database \<Rightarrow> timestamp \<Rightarrow> uuid \<Rightarrow> content \<Rightarrow> content_type \<Rightarrow> access_result" where
  "checkPrerequisites db now userId cnt contentType =
     (case prerequisites cnt of
        None \<Rightarrow> has_access_only
      | Some [] \<Rightarrow> has_access_only
      | Some prerequisiteIds \<Rightarrow>
          (let incompletePrereqs =
                 filter (\<lambda>row. \<not> snd row)
                   (prerequisite_rows db userId contentType prerequisiteIds)
           in if length incompletePrereqs > 0
              then createAccessResult now False PREREQUISITES_NOT_MET
                     (digits_of (length incompletePrereqs) @ '' prerequisite(s) not completed'')
                     (Prerequisite_metadata (map fst incompletePrereqs))
              else has_access_only))"

subsection \<open>Enrollment\<close>

definition checkEnrollment :: "database \<Rightarrow> timestamp \<Rightarrow> uuid \<Rightarrow> uuid \<Rightarrow> access_result" where
  "checkEnrollment db now userId courseId =
     (case first_row (filter (\<lambda>e. e_user_id e = userId \<and> e_course_id e = courseId)
                        (enrollments db)) of
        None \<Rightarrow> createAccessResult now False NOT_ENROLLED
                 ''User not enrolled in course'' Empty_metadata
      | Some enrollment \<Rightarrow>
          if \<not> e_is_active enrollment
          then createAccessResult now False ENROLLMENT_INACTIVE
                 ''Enrollment is inactive'' Empty_metadata
          else if (case e_expires_at enrollment of None \<Rightarrow> False | Some t \<Rightarrow> t < now)
          then createAccessResult now False ENROLLMENT_EXPIRED
                 ''Enrollment has expired'' Empty_metadata
          else has_access_only)"

subsection \<open>The ordered pipeline\<close>

definition access_granted :: "timestamp \<Rightarrow> access_result" where
  "access_granted now = createAccessResult now True ACCESS_GRANTED ''Access granted'' Empty_metadata"

definition performAccessChecks ::
  "database \<Rightarrow> timestamp \<Rightarrow> user \<Rightarrow> content \<Rightarrow> content_type \<Rightarrow> error + access_result" where
  "performAccessChecks db now usr cnt contentType =
     (if \<not> is_published cnt
      then Inr (createAccessResult now False CONTENT_NOT_PUBLISHED
                  ''Content is not published'' Empty_metadata)
      else if \<not> is_verified usr
      then Inr (createAccessResult now False USER_NOT_VERIFIED
                  ''Email verification required'' Empty_metadata)
      else
        (let subscriptionCheck = checkSubscriptionAccess now usr cnt
         in if \<not> hasAccess subscriptionCheck then Inr subscriptionCheck
            else
              (case checkLevelAccess db now (user_id usr) cnt of
                 Inl e \<Rightarrow> Inl e
               | Inr levelCheck \<Rightarrow>
                   if \<not> hasAccess levelCheck then Inr levelCheck
                   else
                     (let prerequisiteCheck =
                            checkPrerequisites db now (user_id usr) cnt contentType
                      in if \<not> hasAccess prerequisiteCheck then Inr prerequisiteCheck
                         else if contentType = Course then
                           (let enrollmentCheck =
                                  checkEnrollment db now (user_id usr) (content_id cnt)
                            in if \<not> hasAccess enrollmentCheck then Inr enrollmentCheck
                               else Inr (access_granted now))
                         else Inr (access_granted now)))))"

text \<open>Lines 43 to 56 of \<^verbatim>\<open>checkContentAccess\<close>: the evaluation proper, between the
  cache read and the cache write.\<close>

definition evaluate ::
  "database \<Rightarrow> timestamp \<Rightarrow> uuid \<Rightarrow> uuid \<Rightarrow> content_type \<Rightarrow> error + access_result" where
  "evaluate db now userId contentId contentType =
     (case getUserWithSubscription db userId of
        None \<Rightarrow> Inr (createAccessResult now False USER_NOT_FOUND ''User not found'' Empty_metadata)
      | Some usr \<Rightarrow>
          (case getContentDetails db contentId contentType of
             None \<Rightarrow> Inr (createAccessResult now False CONTENT_NOT_FOUND
                             ''Content not found'' Empty_metadata)
           | Some cnt \<Rightarrow> performAccessChecks db now usr cnt contentType))"

section \<open>The cache and the service operations\<close>

text \<open>
  The Redis client is a store of entries with an expiry time. A key is the tuple that
  the template string \<^verbatim>\<open>content_access:${userId}:${contentId}:${contentType}\<close>
  (respectively \<^verbatim>\<open>accessible_content:${userId}:${level}\<close>) is built from; a value is
  the object itself, \<^verbatim>\<open>JSON.parse\<close> after \<^verbatim>\<open>JSON.stringify\<close> giving it back. A
  command of the client raises when the store marks it as failing.
\<close>

datatype redis_command = GET | SETEX | KEYS | DEL

type_synonym access_key = "uuid \<times> uuid \<times> content_type"
type_synonym list_key = "uuid \<times> content_level"

record course_summary =
  cs_id :: uuid
  requiresSubscription :: bool
  isFree :: bool

record redis =
  content_access :: "(access_key \<times> timestamp \<times> access_result) list"
  accessible_content :: "(list_key \<times> timestamp \<times> course_summary list) list"
  failing :: "redis_command \<Rightarrow> bool"

definition live :: "timestamp \<Rightarrow> 'k \<times> timestamp \<times> 'v \<Rightarrow> bool" where
  "live now entry = (now < fst (snd entry))"

definition lookup :: "timestamp \<Rightarrow> ('k \<times> timestamp \<times> 'v) list \<Rightarrow> 'k \<Rightarrow> 'v option" where
  "lookup now entries key =
     map_option (\<lambda>entry. snd (snd entry))
       (first_row (filter (\<lambda>entry. fst entry = key \<and> live now entry) entries))"

definition store ::
  "timestamp \<Rightarrow> int \<Rightarrow> 'k \<Rightarrow> 'v \<Rightarrow> ('k \<times> timestamp \<times> 'v) list \<Rightarrow> ('k \<times> timestamp \<times> 'v) list" where
  "store now seconds key v entries =
     (key, now + 1000 * seconds, v) # filter (\<lambda>entry. fst entry \<noteq> key) entries"

definition get_content_access :: "redis \<Rightarrow> timestamp \<Rightarrow> access_key \<Rightarrow> error + access_result option" where
  "get_content_access r now key =
     (if failing r GET then Inl Redis_error else Inr (lookup now (content_access r) key))"

definition setex_content_access ::
  "redis \<Rightarrow> timestamp \<Rightarrow> access_key \<Rightarrow> int \<Rightarrow> access_result \<Rightarrow> error + redis" where
  "setex_content_access r now key seconds v =
     (if failing r SETEX then Inl Redis_error
      else Inr (r\<lparr>content_access := store now seconds key v (content_access r)\<rparr>))"

definition get_accessible_content ::
  "redis \<Rightarrow> timestamp \<Rightarrow> list_key \<Rightarrow> error + course_summary list option" where
  "get_accessible_content r now key =
     (if failing r GET then Inl Redis_error else Inr (lookup now (accessible_content r) key))"

definition setex_accessible_content ::
  "redis \<Rightarrow> timestamp \<Rightarrow> list_key \<Rightarrow> int \<Rightarrow> course_summary list \<Rightarrow> error + redis" where
  "setex_accessible_content r now key seconds v =
     (if failing r SETEX then Inl Redis_error
      else Inr (r\<lparr>accessible_content := store now seconds key v (accessible_content r)\<rparr>))"

record service =
  db :: database
  redis :: redis

definition system_error :: "timestamp \<Rightarrow> access_result" where
  "system_error now = createAccessResult now False SYSTEM_ERROR ''System error occurred'' Empty_metadata"

definition checkContentAccess ::
  "service \<Rightarrow> timestamp \<Rightarrow> uuid \<Rightarrow> uuid \<Rightarrow> content_type \<Rightarrow> access_result \<times> service" where
  "checkContentAccess svc now userId contentId contentType =
     (let cacheKey = (userId, contentId, contentType)
      in case get_content_access (redis svc) now cacheKey of
           Inl e \<Rightarrow> (system_error now, svc)
         | Inr (Some cached) \<Rightarrow> (cached, svc)
         | Inr None \<Rightarrow>
             (case getUserWithSubscription (db svc) userId of
                None \<Rightarrow>
                  (createAccessResult now False USER_NOT_FOUND ''User not found'' Empty_metadata,
                   svc)
              | Some usr \<Rightarrow>
                  (case getContentDetails (db svc) contentId contentType of
                     None \<Rightarrow>
                       (createAccessResult now False CONTENT_NOT_FOUND
                          ''Content not found'' Empty_metadata, svc)
                   | Some cnt \<Rightarrow>
                       (case performAccessChecks (db svc) now usr cnt contentType of
                          Inl e \<Rightarrow> (system_error now, svc)
                        | Inr accessResult \<Rightarrow>
                            (case setex_content_access (redis svc) now cacheKey 300
                                    accessResult of
                               Inl e \<Rightarrow> (system_error now, svc)
                             | Inr r \<Rightarrow> (accessResult, svc\<lparr>redis := r\<rparr>))))))"

subsection \<open>Listing accessible courses\<close>

definition summary_of :: "course_row \<Rightarrow> course_summary" where
  "summary_of course =
     \<lparr>cs_id = c_id course, requiresSubscription = c_requires_subscription course,
      isFree = c_is_free course\<rparr>"

fun accessible_loop ::
  "service \<Rightarrow> timestamp \<Rightarrow> uuid \<Rightarrow> course_row list \<Rightarrow> course_summary list
     \<Rightarrow> course_summary list \<times> service" where
  "accessible_loop svc now userId [] accessibleCourses = (accessibleCourses, svc)"
| "accessible_loop svc now userId (course # rest) accessibleCourses =
     (case checkContentAccess svc now userId (c_id course) Course of
        (access, svc') \<Rightarrow>
          accessible_loop svc' now userId rest
            (if hasAccess access then accessibleCourses @ [summary_of course]
             else accessibleCourses))"

text \<open>\<^verbatim>\<open>getAccessibleContent\<close> has no handler of its own: a cache error leaves it as an
  exception. The courses table is taken to be in creation order.\<close>

definition getAccessibleContent ::
  "service \<Rightarrow> timestamp \<Rightarrow> uuid \<Rightarrow> content_level \<Rightarrow> (error + course_summary list) \<times> service" where
  "getAccessibleContent svc now userId lvl =
     (case get_accessible_content (redis svc) now (userId, lvl) of
        Inl e \<Rightarrow> (Inl e, svc)
      | Inr (Some cached) \<Rightarrow> (Inr cached, svc)
      | Inr None \<Rightarrow>
          (case accessible_loop svc now userId (level_courses (db svc) lvl) [] of
             (accessibleCourses, svc') \<Rightarrow>
               (case setex_accessible_content (redis svc') now (userId, lvl) 600
                       accessibleCourses of
                  Inl e \<Rightarrow> (Inl e, svc')
                | Inr r \<Rightarrow> (Inr accessibleCourses, svc'\<lparr>redis := r\<rparr>))))"

subsection \<open>Invalidation\<close>

definition keys_content_access :: "redis \<Rightarrow> timestamp \<Rightarrow> uuid \<Rightarrow> error + access_key list" where
  "keys_content_access r now userId =
     (if failing r KEYS then Inl Redis_error
      else Inr (map fst (filter (\<lambda>entry. fst (fst entry) = userId \<and> live now entry)
                           (content_access r))))"

definition keys_accessible_content :: "redis \<Rightarrow> timestamp \<Rightarrow> uuid \<Rightarrow> error + list_key list" where
  "keys_accessible_content r now userId =
     (if failing r KEYS then Inl Redis_error
      else Inr (map fst (filter (\<lambda>entry. fst (fst entry) = userId \<and> live now entry)
                           (accessible_content r))))"

definition del_content_access :: "redis \<Rightarrow> access_key list \<Rightarrow> error + redis" where
  "del_content_access r keys =
     (if failing r DEL then Inl Redis_error
      else Inr (r\<lparr>content_access := filter (\<lambda>entry. fst entry \<notin> set keys) (content_access r)\<rparr>))"

definition del_accessible_content :: "redis \<Rightarrow> list_key list \<Rightarrow> error + redis" where
  "del_accessible_content r keys =
     (if failing r DEL then Inl Redis_error
      else Inr (r\<lparr>accessible_content :=
                   filter (\<lambda>entry. fst entry \<notin> set keys) (accessible_content r)\<rparr>))"

definition clearUserContentCache :: "redis \<Rightarrow> timestamp \<Rightarrow> uuid \<Rightarrow> error + redis" where
  "clearUserContentCache r now userId =
     (case keys_content_access r now userId of
        Inl e \<Rightarrow> Inl e
      | Inr keys \<Rightarrow>
          (case (if length keys > 0 then del_content_access r keys else Inr r) of
             Inl e \<Rightarrow> Inl e
           | Inr r1 \<Rightarrow>
               (case keys_accessible_content r1 now userId of
                  Inl e \<Rightarrow> Inl e
                | Inr accessibleKeys \<Rightarrow>
                    if length accessibleKeys > 0
                    then del_accessible_content r1 accessibleKeys
                    else Inr r1)))"

subsection \<open>Enrollment\<close>

record enroll_result =
  success :: bool
  enroll_message :: "string option"
  enroll_code :: "decision_code option"
  enrollmentId :: "uuid option"

text \<open>The insert. The table has a primary key on \<^verbatim>\<open>id\<close> (drawn by
  \<^verbatim>\<open>uuid_generate_v4()\<close>, here the argument \<open>newId\<close>), a uniqueness constraint on
  \<^verbatim>\<open>(user_id, course_id)\<close> and foreign keys to users and courses; the columns not
  listed take their defaults.\<close>

definition insert_enrollment :: "database \<Rightarrow> uuid \<Rightarrow> uuid \<Rightarrow> uuid \<Rightarrow> error + database" where
  "insert_enrollment d newId userId courseId =
     (if list_ex (\<lambda>e. e_id e = newId \<or> (e_user_id e = userId \<and> e_course_id e = courseId))
           (enrollments d)
      then Inl Unique_violation
      else if \<not> list_ex (\<lambda>u. u_id u = userId) (users d)
              \<or> \<not> list_ex (\<lambda>c. c_id c = courseId) (courses d)
      then Inl Foreign_key_violation
      else Inr (d\<lparr>enrollments := enrollments d @
                  [\<lparr>e_id = newId, e_user_id = userId, e_course_id = courseId,
                    e_expires_at = None, e_is_active = True\<rparr>]\<rparr>))"

definition enroll_system_error :: enroll_result where
  "enroll_system_error =
     \<lparr>success = False, enroll_message = Some ''System error occurred'',
      enroll_code = Some SYSTEM_ERROR, enrollmentId = None\<rparr>"

definition enrollUser ::
  "service \<Rightarrow> timestamp \<Rightarrow> uuid \<Rightarrow> uuid \<Rightarrow> uuid \<Rightarrow> enroll_result \<times> service" where
  "enrollUser svc now newId userId courseId =
     (case checkContentAccess svc now userId courseId Course of
        (access, svc1) \<Rightarrow>
          if \<not> hasAccess access
          then (\<lparr>success = False, enroll_message = message access,
                 enroll_code = code access, enrollmentId = None\<rparr>, svc1)
          else if length (filter (\<lambda>e. e_user_id e = userId \<and> e_course_id e = courseId)
                            (enrollments (db svc1))) > 0
          then (\<lparr>success = False, enroll_message = Some ''User already enrolled in course'',
                 enroll_code = Some ALREADY_ENROLLED, enrollmentId = None\<rparr>, svc1)
          else
            (case insert_enrollment (db svc1) newId userId courseId of
               Inl e \<Rightarrow> (enroll_system_error, svc1)
             | Inr d \<Rightarrow>
                 (case clearUserContentCache (redis svc1) now userId of
                    Inl e \<Rightarrow> (enroll_system_error, svc1\<lparr>db := d\<rparr>)
                  | Inr r \<Rightarrow>
                      (\<lparr>success = True,
                        enroll_message = Some ''Successfully enrolled in course'',
                        enroll_code = None, enrollmentId = Some newId\<rparr>,
                       svc1\<lparr>db := d, redis := r\<rparr>))))"

section \<open>Reference formulations\<close>

subsection \<open>The pipeline as an ordered list of checks\<close>

text \<open>The six checks of the access decision in their published order, each as the
  result object it produces; the level gate may raise instead. \<open>run_checks\<close> walks such
  a list and stops at the first entry that raises or denies.\<close>

definition published_check :: "timestamp \<Rightarrow> content \<Rightarrow> access_result" where
  "published_check now cnt =
     (if is_published cnt then has_access_only
      else createAccessResult now False CONTENT_NOT_PUBLISHED
             ''Content is not published'' Empty_metadata)"

definition verified_check :: "timestamp \<Rightarrow> user \<Rightarrow> access_result" where
  "verified_check now usr =
     (if is_verified usr then has_access_only
      else createAccessResult now False USER_NOT_VERIFIED
             ''Email verification required'' Empty_metadata)"

definition enrollment_check ::
  "database \<Rightarrow> timestamp \<Rightarrow> user \<Rightarrow> content \<Rightarrow> content_type \<Rightarrow> access_result" where
  "enrollment_check d now usr cnt contentType =
     (if contentType = Course then checkEnrollment d now (user_id usr) (content_id cnt)
      else has_access_only)"

definition ordered_checks ::
  "database \<Rightarrow> timestamp \<Rightarrow> user \<Rightarrow> content \<Rightarrow> content_type \<Rightarrow> (error + access_result) list" where
  "ordered_checks d now usr cnt contentType =
     [Inr (published_check now cnt),
      Inr (verified_check now usr),
      Inr (checkSubscriptionAccess now usr cnt),
      checkLevelAccess d now (user_id usr) cnt,
      Inr (checkPrerequisites d now (user_id usr) cnt contentType),
      Inr (enrollment_check d now usr cnt contentType)]"

definition passes :: "error + access_result \<Rightarrow> bool" where
  "passes c = (case c of Inl e \<Rightarrow> False | Inr r \<Rightarrow> hasAccess r)"

fun run_checks :: "timestamp \<Rightarrow> (error + access_result) list \<Rightarrow> error + access_result" where
  "run_checks now [] = Inr (access_granted now)"
| "run_checks now (Inl e # rest) = Inl e"
| "run_checks now (Inr r # rest) = (if hasAccess r then run_checks now rest else Inr r)"

subsection \<open>Subscription coverage\<close>

text \<open>The two date tests of the subscription check: a paid period that has elapsed,
  a trial that still runs. A missing date is neither.\<close>

definition period_elapsed :: "timestamp \<Rightarrow> user \<Rightarrow> bool" where
  "period_elapsed now usr = (case current_period_end usr of None \<Rightarrow> False | Some t \<Rightarrow> t < now)"

definition trial_running :: "timestamp \<Rightarrow> user \<Rightarrow> bool" where
  "trial_running now usr = (case trial_end usr of None \<Rightarrow> False | Some t \<Rightarrow> now < t)"

subsection \<open>Completion of a course\<close>

text \<open>The two counts as the data model words them: the lessons of the table that hang
  under a module of the course, and those of them for which the user has a completed
  progress record; the percentage is their quotient times 100, kept to two decimal
  places, and 0 for a course without lessons. \<open>one_progress_per_lesson\<close> is the data
  model's rule of one progress record per user and lesson.\<close>

definition in_course :: "database \<Rightarrow> uuid \<Rightarrow> lesson_row \<Rightarrow> bool" where
  "in_course d courseId l =
     list_ex (\<lambda>m. l_module_id l = m_id m \<and> m_course_id m = courseId) (modules d)"

definition lesson_completed :: "database \<Rightarrow> uuid \<Rightarrow> lesson_row \<Rightarrow> bool" where
  "lesson_completed d userId l =
     list_ex (\<lambda>up. up_user_id up = userId \<and> up_lesson_id up = Some (l_id l)
                  \<and> up_status up = Completed) (user_progress d)"

definition totalLessonCount :: "database \<Rightarrow> uuid \<Rightarrow> nat" where
  "totalLessonCount d courseId = length (filter (in_course d courseId) (lessons d))"

definition completedLessonCount :: "database \<Rightarrow> uuid \<Rightarrow> uuid \<Rightarrow> nat" where
  "completedLessonCount d userId courseId =
     length (filter (\<lambda>l. in_course d courseId l \<and> lesson_completed d userId l) (lessons d))"

definition two_places :: "rat \<Rightarrow> rat" where
  "two_places x = of_int \<lfloor>x * 100 + 1 / 2\<rfloor> / 100"

definition completion_percentage :: "database \<Rightarrow> uuid \<Rightarrow> uuid \<Rightarrow> rat" where
  "completion_percentage d userId courseId =
     (if totalLessonCount d courseId = 0 then 0
      else two_places (of_nat (completedLessonCount d userId courseId)
                         / of_nat (totalLessonCount d courseId) * 100))"

definition progress_key :: "progress_row \<Rightarrow> uuid \<times> uuid option" where
  "progress_key up = (up_user_id up, up_lesson_id up)"

definition one_progress_per_lesson :: "database \<Rightarrow> bool" where
  "one_progress_per_lesson d =
     distinct (map progress_key (filter (\<lambda>up. up_lesson_id up \<noteq> None) (user_progress d)))"

subsection \<open>Average completion of a level\<close>

text \<open>The unweighted average of the completion percentages of the published courses of
  a level; a course the user never started contributes 0.\<close>

definition average_completion :: "database \<Rightarrow> uuid \<Rightarrow> content_level \<Rightarrow> rat" where
  "average_completion d userId lvl =
     (let cs = level_courses d lvl
      in if cs = [] then 0
         else sum_list (map (\<lambda>c. completion_percentage d userId (c_id c)) cs)
                / of_nat (length cs))"

text \<open>The level whose courses gate a level, and its name in the refusal message.\<close>

fun level_below :: "content_level \<Rightarrow> content_level" where
  "level_below Beginner = Beginner"
| "level_below Intermediate = Beginner"
| "level_below Advanced = Intermediate"

fun level_name :: "content_level \<Rightarrow> string" where
  "level_name Beginner = ''Beginner''"
| "level_name Intermediate = ''Intermediate''"
| "level_name Advanced = ''Advanced''"

subsection \<open>Prerequisite records\<close>







subsection \<open>Decisions and denials by name\<close>

text \<open>The two result objects that the properties below name, the database with every
  row of one user removed, and the answer of \<^verbatim>\<open>enrollUser\<close> to a refused access
  check.\<close>

definition user_not_found :: "timestamp \<Rightarrow> access_result" where
  "user_not_found now = createAccessResult now False USER_NOT_FOUND ''User not found'' Empty_metadata"

definition not_enrolled :: "timestamp \<Rightarrow> access_result" where
  "not_enrolled now =
     createAccessResult now False NOT_ENROLLED ''User not enrolled in course'' Empty_metadata"

definition without_user :: "database \<Rightarrow> uuid \<Rightarrow> database" where
  "without_user d userId = d\<lparr>users := filter (\<lambda>u. u_id u \<noteq> userId) (users d)\<rparr>"

definition denial_of :: "access_result \<Rightarrow> enroll_result" where
  "denial_of access =
     \<lparr>success = False, enroll_message = message access, enroll_code = code access,
      enrollmentId = None\<rparr>"


definition enrolled_as :: "uuid \<Rightarrow> enroll_result" where
  "enrolled_as newId =
     \<lparr>success = True, enroll_message = Some ''Successfully enrolled in course'',
      enroll_code = None, enrollmentId = Some newId\<rparr>"

subsection \<open>States the service can reach\<close>

text \<open>\<open>enrolled\<close>: the enrollments table has a row for the user and the course.
  \<open>grants_backed\<close>: every cached decision that grants a course to a user is backed by
  such a row. \<open>reachable\<close>: the states of database and cache that arise from any
  database and a cache without decisions by the operations of the service at arbitrary
  times, by outages of the cache, and by writes of other subsystems that leave the
  enrollments table alone.\<close>

definition enrolled :: "database \<Rightarrow> uuid \<Rightarrow> uuid \<Rightarrow> bool" where
  "enrolled d userId courseId =
     list_ex (\<lambda>e. e_user_id e = userId \<and> e_course_id e = courseId) (enrollments d)"

definition grant_backed :: "database \<Rightarrow> access_key \<times> timestamp \<times> access_result \<Rightarrow> bool" where
  "grant_backed d entry =
     (case entry of
        ((userId, courseId, contentType), expires, r) \<Rightarrow>
          \<not> (contentType = Course \<and> hasAccess r) \<or> enrolled d userId courseId)"

definition grants_backed :: "service \<Rightarrow> bool" where
  "grants_backed svc = list_all (grant_backed (db svc)) (content_access (redis svc))"

inductive reachable :: "service \<Rightarrow> bool" where
  start: "content_access (redis svc) = [] \<Longrightarrow> reachable svc"
| check: "reachable svc
    \<Longrightarrow> reachable (snd (checkContentAccess svc now userId contentId contentType))"
| listing: "reachable svc \<Longrightarrow> reachable (snd (getAccessibleContent svc now userId lvl))"
| enroll: "reachable svc \<Longrightarrow> reachable (snd (enrollUser svc now newId userId courseId))"
| invalidate: "reachable svc \<Longrightarrow> clearUserContentCache (redis svc) now userId = Inr r
    \<Longrightarrow> reachable (svc\<lparr>redis := r\<rparr>)"
| outage: "reachable svc \<Longrightarrow> reachable (svc\<lparr>redis := (redis svc)\<lparr>failing := f\<rparr>\<rparr>)"
| external: "reachable svc \<Longrightarrow> enrollments d = enrollments (db svc)
    \<Longrightarrow> reachable (svc\<lparr>db := d\<rparr>)"

subsection \<open>Two enrollments at once\<close>

text \<open>
  \<^verbatim>\<open>enrollUser\<close> cut at the await between its existing-enrollment query and its insert:
  \<open>enroll_gate\<close> is lines 503 to 524 (the access check and the query; it answers, or lets
  the call go on), \<open>enroll_write\<close> is lines 526 to 542 with the handler of line 543 (the
  insert and the invalidation). Two calls for the same user and course either run one
  after the other (\<open>serial_enrolls\<close>), or both pass the gate before either writes
  (\<open>racing_enrolls\<close>); both are schedules of two calls in flight at once.
\<close>

definition enroll_gate ::
  "service \<Rightarrow> timestamp \<Rightarrow> uuid \<Rightarrow> uuid \<Rightarrow> enroll_result option \<times> service" where
  "enroll_gate svc now userId courseId =
     (case checkContentAccess svc now userId courseId Course of
        (access, svc1) \<Rightarrow>
          if \<not> hasAccess access
          then (Some \<lparr>success = False, enroll_message = message access,
                      enroll_code = code access, enrollmentId = None\<rparr>, svc1)
          else if length (filter (\<lambda>e. e_user_id e = userId \<and> e_course_id e = courseId)
                            (enrollments (db svc1))) > 0
          then (Some \<lparr>success = False,
                      enroll_message = Some ''User already enrolled in course'',
                      enroll_code = Some ALREADY_ENROLLED, enrollmentId = None\<rparr>, svc1)
          else (None, svc1))"

definition enroll_write ::
  "service \<Rightarrow> timestamp \<Rightarrow> uuid \<Rightarrow> uuid \<Rightarrow> uuid \<Rightarrow> enroll_result \<times> service" where
  "enroll_write svc1 now newId userId courseId =
     (case insert_enrollment (db svc1) newId userId courseId of
        Inl e \<Rightarrow> (enroll_system_error, svc1)
      | Inr d \<Rightarrow>
          (case clearUserContentCache (redis svc1) now userId of
             Inl e \<Rightarrow> (enroll_system_error, svc1\<lparr>db := d\<rparr>)
           | Inr r \<Rightarrow>
               (\<lparr>success = True,
                 enroll_message = Some ''Successfully enrolled in course'',
                 enroll_code = None, enrollmentId = Some newId\<rparr>,
                svc1\<lparr>db := d, redis := r\<rparr>)))"

definition finish ::
  "enroll_result option \<Rightarrow> service \<Rightarrow> timestamp \<Rightarrow> uuid \<Rightarrow> uuid \<Rightarrow> uuid
     \<Rightarrow> enroll_result \<times> service" where
  "finish gate svc now newId userId courseId =
     (case gate of
        Some result \<Rightarrow> (result, svc)
      | None \<Rightarrow> enroll_write svc now newId userId courseId)"

definition serial_enrolls ::
  "service \<Rightarrow> timestamp \<Rightarrow> timestamp \<Rightarrow> uuid \<Rightarrow> uuid \<Rightarrow> uuid \<Rightarrow> uuid
     \<Rightarrow> enroll_result \<times> enroll_result \<times> service" where
  "serial_enrolls svc now1 now2 idA idB userId courseId =
     (case enrollUser svc now1 idA userId courseId of
        (resultA, svc1) \<Rightarrow>
          (case enrollUser svc1 now2 idB userId courseId of
             (resultB, svc2) \<Rightarrow> (resultA, resultB, svc2)))"

definition racing_enrolls ::
  "service \<Rightarrow> timestamp \<Rightarrow> uuid \<Rightarrow> uuid \<Rightarrow> uuid \<Rightarrow> uuid
     \<Rightarrow> enroll_result \<times> enroll_result \<times> service" where
  "racing_enrolls svc now idA idB userId courseId =
     (case enroll_gate svc now userId courseId of
        (gateA, svc1) \<Rightarrow>
          (case enroll_gate svc1 now userId courseId of
             (gateB, svc2) \<Rightarrow>
               (case finish gateA svc2 now idA userId courseId of
                  (resultA, svc3) \<Rightarrow>
                    (case finish gateB svc3 now idB userId courseId of
                       (resultB, svc4) \<Rightarrow> (resultA, resultB, svc4)))))"

section \<open>Scenarios\<close>

text \<open>An unverified user without subscription or enrollment asks for a published paid
  intermediate course while no beginner course exists: four checks would fail.\<close>

definition db_unverified :: database where
  "db_unverified =
     \<lparr>users = [\<lparr>u_id = 1, u_is_active = True, u_is_verified = False\<rparr>],
      subscriptions = [],
      courses = [\<lparr>c_id = 10, c_level = Intermediate, c_prerequisites = Some [],
                  c_is_published = True, c_is_free = False, c_requires_subscription = True\<rparr>],
      modules = [], lessons = [], user_progress = [], enrollments = []\<rparr>"

text \<open>A subscriber whose paid period has elapsed while the trial date still lies ahead,
  a user who cancelled during a running trial, and a paid beginner course.\<close>

definition db_lapsed_in_trial :: database where
  "db_lapsed_in_trial =
     \<lparr>users = [\<lparr>u_id = 1, u_is_active = True, u_is_verified = True\<rparr>],
      subscriptions = [\<lparr>s_user_id = 1, s_status = Active, s_current_period_end = Some 5,
                        s_trial_end = Some 20\<rparr>],
      courses = [\<lparr>c_id = 10, c_level = Beginner, c_prerequisites = Some [],
                  c_is_published = True, c_is_free = False, c_requires_subscription = True\<rparr>],
      modules = [], lessons = [], user_progress = [], enrollments = []\<rparr>"

definition usr_lapsed_in_trial :: user where
  "usr_lapsed_in_trial =
     \<lparr>user_id = 1, is_verified = True, subscription_status = Some Active,
      current_period_end = Some 5, trial_end = Some 20\<rparr>"

definition usr_cancelled_in_trial :: user where
  "usr_cancelled_in_trial =
     \<lparr>user_id = 1, is_verified = True, subscription_status = Some Cancelled,
      current_period_end = None, trial_end = Some 20\<rparr>"

definition cnt_paid :: content where
  "cnt_paid =
     \<lparr>content_id = 10, level = Beginner, is_published = True, is_free = False,
      requires_subscription = True, prerequisites = Some []\<rparr>"

text \<open>A beginner course of three lessons of which user 7 has completed one.\<close>

definition db_one_of_three :: database where
  "db_one_of_three =
     \<lparr>users = [\<lparr>u_id = 7, u_is_active = True, u_is_verified = True\<rparr>],
      subscriptions = [],
      courses = [\<lparr>c_id = 10, c_level = Beginner, c_prerequisites = Some [],
                  c_is_published = True, c_is_free = True, c_requires_subscription = False\<rparr>],
      modules = [\<lparr>m_id = 20, m_course_id = 10, m_prerequisites = Some []\<rparr>],
      lessons = [\<lparr>l_id = 30, l_module_id = 20\<rparr>, \<lparr>l_id = 31, l_module_id = 20\<rparr>,
                 \<lparr>l_id = 32, l_module_id = 20\<rparr>],
      user_progress = [\<lparr>up_user_id = 7, up_course_id = 10, up_module_id = Some 20,
                        up_lesson_id = Some 30, up_status = Completed\<rparr>,
                       \<lparr>up_user_id = 7, up_course_id = 10, up_module_id = Some 20,
                        up_lesson_id = Some 31, up_status = In_progress\<rparr>],
      enrollments = []\<rparr>"

text \<open>Three published beginner courses of which user 7 has completed 1 of 2, 8 of 9 and
  1 of 1 lessons (50, 88.89 and 100 percent, on average 79.63), and an intermediate
  course in which the user is enrolled.\<close>

definition completed_row :: "uuid \<Rightarrow> uuid \<Rightarrow> uuid \<Rightarrow> uuid \<Rightarrow> progress_row" where
  "completed_row userId courseId moduleId lessonId =
     \<lparr>up_user_id = userId, up_course_id = courseId, up_module_id = Some moduleId,
      up_lesson_id = Some lessonId, up_status = Completed\<rparr>"

definition db_rounding :: database where
  "db_rounding =
     \<lparr>users = [\<lparr>u_id = 7, u_is_active = True, u_is_verified = True\<rparr>],
      subscriptions = [],
      courses =
        [\<lparr>c_id = 10, c_level = Intermediate, c_prerequisites = Some [],
          c_is_published = True, c_is_free = True, c_requires_subscription = False\<rparr>,
         \<lparr>c_id = 11, c_level = Beginner, c_prerequisites = Some [],
          c_is_published = True, c_is_free = True, c_requires_subscription = False\<rparr>,
         \<lparr>c_id = 12, c_level = Beginner, c_prerequisites = Some [],
          c_is_published = True, c_is_free = True, c_requires_subscription = False\<rparr>,
         \<lparr>c_id = 13, c_level = Beginner, c_prerequisites = Some [],
          c_is_published = True, c_is_free = True, c_requires_subscription = False\<rparr>],
      modules =
        [\<lparr>m_id = 21, m_course_id = 11, m_prerequisites = Some []\<rparr>,
         \<lparr>m_id = 22, m_course_id = 12, m_prerequisites = Some []\<rparr>,
         \<lparr>m_id = 23, m_course_id = 13, m_prerequisites = Some []\<rparr>],
      lessons =
        map (\<lambda>i. \<lparr>l_id = i, l_module_id = 21\<rparr>) [31, 32]
        @ map (\<lambda>i. \<lparr>l_id = i, l_module_id = 22\<rparr>) [41, 42, 43, 44, 45, 46, 47, 48, 49]
        @ [\<lparr>l_id = 51, l_module_id = 23\<rparr>],
      user_progress =
        [completed_row 7 11 21 31]
        @ map (completed_row 7 12 22) [41, 42, 43, 44, 45, 46, 47, 48]
        @ [completed_row 7 13 23 51],
      enrollments = [\<lparr>e_id = 60, e_user_id = 7, e_course_id = 10, e_expires_at = None,
                      e_is_active = True\<rparr>]\<rparr>"


definition usr_seven :: user where
  "usr_seven =
     \<lparr>user_id = 7, is_verified = True, subscription_status = None,
      current_period_end = None, trial_end = None\<rparr>"


text \<open>Cache states: an empty store, a store whose every command raises, and a store
  that still holds, until time 240000, a refusal of course 10 to user 7 computed at time
  -60000 when the course was unpublished. A database whose only user is inactive.\<close>

definition redis_empty :: redis where
  "redis_empty = \<lparr>content_access = [], accessible_content = [], failing = (\<lambda>c. False)\<rparr>"

definition redis_down :: redis where
  "redis_down = \<lparr>content_access = [], accessible_content = [], failing = (\<lambda>c. True)\<rparr>"


definition db_inactive :: database where
  "db_inactive =
     \<lparr>users = [\<lparr>u_id = 7, u_is_active = False, u_is_verified = True\<rparr>],
      subscriptions = [],
      courses = [\<lparr>c_id = 10, c_level = Beginner, c_prerequisites = Some [],
                  c_is_published = True, c_is_free = True, c_requires_subscription = False\<rparr>],
      modules = [], lessons = [], user_progress = [], enrollments = []\<rparr>"

text \<open>A store that still holds a grant of course 10 to user 7, computed at time -60000.\<close>

definition redis_stale_grant :: redis where
  "redis_stale_grant =
     \<lparr>content_access = [((7, 10, Course), 240000, access_granted (- 60000))],
      accessible_content = [], failing = (\<lambda>c. False)\<rparr>"

section \<open>Properties\<close>

subsection \<open>Result objects\<close>

lemma has_access_only_access [simp]: "hasAccess has_access_only"
  by (simp add: has_access_only_def)

lemma createAccessResult_sel [simp]:
  "hasAccess (createAccessResult now h c m md) = h"
  "code (createAccessResult now h c m md) = Some c"
  "message (createAccessResult now h c m md) = Some m"
  "metadata (createAccessResult now h c m md) = Some md"
  "timestamp (createAccessResult now h c m md) = Some now"
  by (simp_all add: createAccessResult_def)

subsection \<open>The order of the checks\<close>

lemma performAccessChecks_run:
  "performAccessChecks d now usr cnt contentType
     = run_checks now (ordered_checks d now usr cnt contentType)"
  by (cases "checkLevelAccess d now (user_id usr) cnt")
     (simp_all add: performAccessChecks_def ordered_checks_def published_check_def
        verified_check_def enrollment_check_def Let_def)

lemma run_checks_first_failure:
  "list_all passes pre \<Longrightarrow> \<not> hasAccess r \<Longrightarrow> run_checks now (pre @ Inr r # post) = Inr r"
  by (induction pre) (auto simp: passes_def split: sum.splits)

lemma run_checks_all_pass:
  "list_all passes cs \<Longrightarrow> run_checks now cs = Inr (access_granted now)"
  by (induction cs) (auto simp: passes_def split: sum.splits)

lemma run_checks_result:
  "run_checks now cs = Inr r
     \<Longrightarrow> r = access_granted now \<and> list_all passes cs \<or> (Inr r \<in> set cs \<and> \<not> hasAccess r)"
  by (induction now cs rule: run_checks.induct) (auto simp: passes_def split: if_splits)

lemma sub_code:
  "\<not> hasAccess (checkSubscriptionAccess now usr cnt)
     \<Longrightarrow> code (checkSubscriptionAccess now usr cnt) \<noteq> Some ACCESS_GRANTED"
  by (auto simp: checkSubscriptionAccess_def split: if_splits)

lemma level_code:
  "checkLevelAccess d now u cnt = Inr r \<Longrightarrow> \<not> hasAccess r
     \<Longrightarrow> code r = Some PREREQUISITE_LEVEL_NOT_COMPLETED"
  by (auto simp: checkLevelAccess_def level_denied_def
      split: content_level.splits sum.splits if_splits)

lemma prereq_code:
  "\<not> hasAccess (checkPrerequisites d now u cnt ct)
     \<Longrightarrow> code (checkPrerequisites d now u cnt ct) = Some PREREQUISITES_NOT_MET"
  by (auto simp: checkPrerequisites_def Let_def split: option.splits list.splits if_splits)

lemma enroll_code:
  "\<not> hasAccess (checkEnrollment d now u c)
     \<Longrightarrow> code (checkEnrollment d now u c)
           \<in> {Some NOT_ENROLLED, Some ENROLLMENT_INACTIVE, Some ENROLLMENT_EXPIRED}"
  by (auto simp: checkEnrollment_def split: option.splits if_splits)

lemma failing_check_code:
  assumes "c \<in> set (ordered_checks d now usr cnt contentType)" "c = Inr r" "\<not> hasAccess r"
  shows "code r \<noteq> Some ACCESS_GRANTED"
proof -
  from assms(1,2) consider
      "r = published_check now cnt" | "r = verified_check now usr"
    | "r = checkSubscriptionAccess now usr cnt"
    | "checkLevelAccess d now (user_id usr) cnt = Inr r"
    | "r = checkPrerequisites d now (user_id usr) cnt contentType"
    | "r = enrollment_check d now usr cnt contentType"
    by (auto simp: ordered_checks_def)
  then show ?thesis
  proof cases
    case 1 with assms(3) show ?thesis by (simp add: published_check_def split: if_splits)
  next
    case 2 with assms(3) show ?thesis by (simp add: verified_check_def split: if_splits)
  next
    case 3 with assms(3) show ?thesis using sub_code by simp
  next
    case 4 with assms(3) show ?thesis using level_code by fastforce
  next
    case 5 with assms(3) show ?thesis using prereq_code by fastforce
  next
    case 6 with assms(3) show ?thesis using enroll_code [of d now "user_id usr" "content_id cnt"]
      by (auto simp: enrollment_check_def split: if_splits)
  qed
qed

text \<open>
  Claim C1. When the user and the content are found, the evaluation runs the six checks in
  the order published, verified, subscription, level gate, prerequisites, enrollment (the
  last one only for a course) and stops at the first that does not pass: whenever a check
  fails and all checks before it pass, the answer is that check's result; the answer
  carries \<open>ACCESS_GRANTED\<close> exactly when all six pass.
\<close>

theorem access_checks_ordered:
  assumes "getUserWithSubscription d userId = Some usr"
    and "getContentDetails d contentId contentType = Some cnt"
  shows "evaluate d now userId contentId contentType
           = run_checks now (ordered_checks d now usr cnt contentType)
         \<and> (\<forall>pre r post.
               ordered_checks d now usr cnt contentType = pre @ Inr r # post
               \<and> list_all passes pre \<and> \<not> hasAccess r
               \<longrightarrow> evaluate d now userId contentId contentType = Inr r)
         \<and> ((\<exists>r. evaluate d now userId contentId contentType = Inr r
                  \<and> code r = Some ACCESS_GRANTED)
              \<longleftrightarrow> list_all passes (ordered_checks d now usr cnt contentType))"
proof -
  let ?cs = "ordered_checks d now usr cnt contentType"
  have run: "evaluate d now userId contentId contentType = run_checks now ?cs"
    using assms by (simp add: evaluate_def performAccessChecks_run)
  have first: "\<forall>pre r post. ?cs = pre @ Inr r # post \<and> list_all passes pre \<and> \<not> hasAccess r
                 \<longrightarrow> evaluate d now userId contentId contentType = Inr r"
    using run run_checks_first_failure by metis
  have granted: "(\<exists>r. evaluate d now userId contentId contentType = Inr r
                    \<and> code r = Some ACCESS_GRANTED) \<longleftrightarrow> list_all passes ?cs"
  proof
    assume "\<exists>r. evaluate d now userId contentId contentType = Inr r
              \<and> code r = Some ACCESS_GRANTED"
    then obtain r where r: "run_checks now ?cs = Inr r" "code r = Some ACCESS_GRANTED"
      using run by auto
    from run_checks_result [OF r(1)] show "list_all passes ?cs"
      using failing_check_code r(2) by blast
  next
    assume "list_all passes ?cs"
    then have "run_checks now ?cs = Inr (access_granted now)"
      by (rule run_checks_all_pass)
    then show "\<exists>r. evaluate d now userId contentId contentType = Inr r
                 \<and> code r = Some ACCESS_GRANTED"
      using run by (simp add: access_granted_def)
  qed
  from run first granted show ?thesis by blast
qed

lemma db_unverified_user:
  "getUserWithSubscription db_unverified 1
     = Some \<lparr>user_id = 1, is_verified = False, subscription_status = None,
             current_period_end = None, trial_end = None\<rparr>"
  by (simp add: getUserWithSubscription_def db_unverified_def left_join_subscriptions_def
        first_row_def user_of_def)

lemma db_unverified_content:
  "getContentDetails db_unverified 10 Course
     = Some \<lparr>content_id = 10, level = Intermediate, is_published = True, is_free = False,
             requires_subscription = True, prerequisites = Some []\<rparr>"
  by (simp add: getContentDetails_def db_unverified_def first_row_def content_of_course_def)

theorem access_checks_ordered_witness:
  "evaluate db_unverified 0 1 10 Course
     = Inr (createAccessResult 0 False USER_NOT_VERIFIED ''Email verification required'' Empty_metadata)"
  using access_checks_ordered [OF db_unverified_user db_unverified_content, of 0]
  by (simp add: ordered_checks_def published_check_def verified_check_def)

subsection \<open>Subscription\<close>

lemma has_access_only_code [simp]: "code has_access_only = None"
  by (simp add: has_access_only_def)

lemma run_checks_member:
  "run_checks now cs = Inr r \<Longrightarrow> r = access_granted now \<or> (Inr r \<in> set cs \<and> \<not> hasAccess r)"
  using run_checks_result by blast

lemma free_content_codes:
  assumes "is_free cnt" "performAccessChecks d now usr cnt contentType = Inr r"
  shows "code r \<noteq> Some SUBSCRIPTION_REQUIRED \<and> code r \<noteq> Some SUBSCRIPTION_EXPIRED"
proof -
  let ?cs = "ordered_checks d now usr cnt contentType"
  from assms(2) have "run_checks now ?cs = Inr r" by (simp add: performAccessChecks_run)
  then consider "r = access_granted now" | "Inr r \<in> set ?cs" "\<not> hasAccess r"
    using run_checks_member by blast
  then show ?thesis
  proof cases
    case 1 then show ?thesis by (simp add: access_granted_def)
  next
    case 2
    from 2(1) consider
        "r = published_check now cnt" | "r = verified_check now usr"
      | "r = checkSubscriptionAccess now usr cnt"
      | "checkLevelAccess d now (user_id usr) cnt = Inr r"
      | "r = checkPrerequisites d now (user_id usr) cnt contentType"
      | "r = enrollment_check d now usr cnt contentType"
      by (auto simp: ordered_checks_def)
    then show ?thesis
    proof cases
      case 1 with 2(2) show ?thesis by (simp add: published_check_def split: if_splits)
    next
      case 2 with \<open>\<not> hasAccess r\<close> show ?thesis by (simp add: verified_check_def split: if_splits)
    next
      case 3 with \<open>\<not> hasAccess r\<close> assms(1) show ?thesis by (simp add: checkSubscriptionAccess_def)
    next
      case 4 with \<open>\<not> hasAccess r\<close> show ?thesis using level_code by fastforce
    next
      case 5 with \<open>\<not> hasAccess r\<close> show ?thesis using prereq_code by fastforce
    next
      case 6 with \<open>\<not> hasAccess r\<close> show ?thesis
        using enroll_code [of d now "user_id usr" "content_id cnt"]
        by (auto simp: enrollment_check_def split: if_splits)
    qed
  qed
qed

text \<open>
  Claim C2 (amended). Free content passes the subscription check, and an evaluation of
  free content never answers \<open>SUBSCRIPTION_REQUIRED\<close> or \<open>SUBSCRIPTION_EXPIRED\<close>. For
  content that is not free and requires a subscription the check passes exactly when the
  status is active and the current period has not elapsed, or the status is not active
  and the trial end lies in the future; it fails with \<open>SUBSCRIPTION_EXPIRED\<close> exactly
  when the status is active and the period has elapsed (whatever the trial end), and with
  \<open>SUBSCRIPTION_REQUIRED\<close> exactly when the status is not active and no trial runs.
\<close>

theorem subscription_check:
  "(is_free cnt \<longrightarrow> checkSubscriptionAccess now usr cnt = has_access_only)
   \<and> (\<not> is_free cnt \<and> requires_subscription cnt \<longrightarrow>
        (hasAccess (checkSubscriptionAccess now usr cnt)
           \<longleftrightarrow> (subscription_status usr = Some Active \<and> \<not> period_elapsed now usr)
               \<or> (subscription_status usr \<noteq> Some Active \<and> trial_running now usr))
        \<and> (code (checkSubscriptionAccess now usr cnt) = Some SUBSCRIPTION_EXPIRED
           \<longleftrightarrow> subscription_status usr = Some Active \<and> period_elapsed now usr)
        \<and> (code (checkSubscriptionAccess now usr cnt) = Some SUBSCRIPTION_REQUIRED
           \<longleftrightarrow> subscription_status usr \<noteq> Some Active \<and> \<not> trial_running now usr))
   \<and> (is_free cnt \<and> getContentDetails d contentId contentType = Some cnt
        \<and> evaluate d now userId contentId contentType = Inr r
        \<longrightarrow> code r \<noteq> Some SUBSCRIPTION_REQUIRED \<and> code r \<noteq> Some SUBSCRIPTION_EXPIRED)"
proof -
  have free: "is_free cnt \<longrightarrow> checkSubscriptionAccess now usr cnt = has_access_only"
    by (simp add: checkSubscriptionAccess_def)
  have paid: "\<not> is_free cnt \<and> requires_subscription cnt \<longrightarrow>
        (hasAccess (checkSubscriptionAccess now usr cnt)
           \<longleftrightarrow> (subscription_status usr = Some Active \<and> \<not> period_elapsed now usr)
               \<or> (subscription_status usr \<noteq> Some Active \<and> trial_running now usr))
        \<and> (code (checkSubscriptionAccess now usr cnt) = Some SUBSCRIPTION_EXPIRED
           \<longleftrightarrow> subscription_status usr = Some Active \<and> period_elapsed now usr)
        \<and> (code (checkSubscriptionAccess now usr cnt) = Some SUBSCRIPTION_REQUIRED
           \<longleftrightarrow> subscription_status usr \<noteq> Some Active \<and> \<not> trial_running now usr)"
    by (simp add: checkSubscriptionAccess_def period_elapsed_def trial_running_def)
  have ev: "is_free cnt \<and> getContentDetails d contentId contentType = Some cnt
        \<and> evaluate d now userId contentId contentType = Inr r
        \<longrightarrow> code r \<noteq> Some SUBSCRIPTION_REQUIRED \<and> code r \<noteq> Some SUBSCRIPTION_EXPIRED"
  proof (intro impI, elim conjE)
    assume a: "is_free cnt" "getContentDetails d contentId contentType = Some cnt"
      "evaluate d now userId contentId contentType = Inr r"
    show "code r \<noteq> Some SUBSCRIPTION_REQUIRED \<and> code r \<noteq> Some SUBSCRIPTION_EXPIRED"
    proof (cases "getUserWithSubscription d userId")
      case None
      with a(3) show ?thesis by (auto simp: evaluate_def)
    next
      case (Some u)
      with a have "performAccessChecks d now u cnt contentType = Inr r"
        by (simp add: evaluate_def)
      with a(1) show ?thesis by (rule free_content_codes)
    qed
  qed
  from free paid ev show ?thesis by blast
qed

theorem subscription_check_witness:
  "hasAccess (checkSubscriptionAccess 10 usr_cancelled_in_trial cnt_paid)
   \<and> code (checkSubscriptionAccess 30 usr_cancelled_in_trial cnt_paid) = Some SUBSCRIPTION_REQUIRED"
  using subscription_check [of cnt_paid 10 usr_cancelled_in_trial]
    subscription_check [of cnt_paid 30 usr_cancelled_in_trial]
  by (simp add: cnt_paid_def usr_cancelled_in_trial_def trial_running_def period_elapsed_def)

text \<open>The claim as stated lets a running trial pass on its own. An active subscriber
  whose period ended at 5 and whose trial ends at 20 is refused at time 10.\<close>

theorem subscription_trial_counterexample:
  "getUserWithSubscription db_lapsed_in_trial 1 = Some usr_lapsed_in_trial
   \<and> getContentDetails db_lapsed_in_trial 10 Course = Some cnt_paid
   \<and> \<not> is_free cnt_paid \<and> requires_subscription cnt_paid
   \<and> trial_running 10 usr_lapsed_in_trial
   \<and> evaluate db_lapsed_in_trial 10 1 10 Course
       = Inr (createAccessResult 10 False SUBSCRIPTION_EXPIRED ''Subscription has expired''
                Empty_metadata)"
  by (simp add: evaluate_def getUserWithSubscription_def getContentDetails_def
        db_lapsed_in_trial_def usr_lapsed_in_trial_def cnt_paid_def left_join_subscriptions_def
        first_row_def user_of_def content_of_course_def trial_running_def
        performAccessChecks_def checkSubscriptionAccess_def)

subsection \<open>Course completion\<close>

lemma floor_rat_numeral [simp]:
  "\<lfloor>(numeral a :: rat) / numeral b\<rfloor> = numeral a div numeral b"
  using floor_divide_of_int_eq [of "numeral a" "numeral b", where ?'a = rat] by simp

lemma keyed_filter_le1:
  "distinct (map f xs) \<Longrightarrow> length (filter (\<lambda>x. f x = k \<and> Q x) xs) \<le> 1"
proof (induction xs)
  case Nil
  then show ?case by simp
next
  case (Cons x xs)
  show ?case
  proof (cases "f x = k")
    case True
    with Cons.prems have "\<forall>y\<in>set xs. f y \<noteq> k" by (fastforce simp: image_iff)
    then have "filter (\<lambda>x. f x = k \<and> Q x) xs = []" by (simp add: filter_empty_conv)
    then show ?thesis by simp
  next
    case False
    with Cons show ?thesis by simp
  qed
qed

lemma keyed_filter_indicator:
  assumes "distinct (map f xs)"
  shows "length (filter (\<lambda>x. f x = k \<and> Q x) xs) = (if list_ex (\<lambda>x. f x = k \<and> Q x) xs then 1 else 0)"
proof (cases "list_ex (\<lambda>x. f x = k \<and> Q x) xs")
  case True
  then have "filter (\<lambda>x. f x = k \<and> Q x) xs \<noteq> []"
    by (simp add: filter_empty_conv list_ex_iff)
  then have "length (filter (\<lambda>x. f x = k \<and> Q x) xs) \<ge> 1"
    by (simp add: Suc_le_eq)
  with keyed_filter_le1 [OF assms, of k Q] True show ?thesis by simp
next
  case False
  then have "filter (\<lambda>x. f x = k \<and> Q x) xs = []"
    by (simp add: filter_empty_conv list_ex_iff)
  with False show ?thesis by simp
qed

lemma length_concat_indicator:
  "(\<And>x. x \<in> set xs \<Longrightarrow> length (f x) = (if P x then 1 else 0))
     \<Longrightarrow> length (concat (map f xs)) = length (filter P xs)"
  by (induction xs) auto

lemma length_concat_cong:
  "(\<And>x. x \<in> set xs \<Longrightarrow> length (f x) = length (g x))
     \<Longrightarrow> length (concat (map f xs)) = length (concat (map g xs))"
  by (induction xs) auto

lemma length_concat_filter_cons:
  "length (concat (map (\<lambda>y. filter (\<lambda>x. R x y) (x # xs)) ys))
     = length (filter (R x) ys) + length (concat (map (\<lambda>y. filter (\<lambda>x. R x y) xs) ys))"
  by (induction ys) auto

lemma length_concat_filter_swap:
  "length (concat (map (\<lambda>x. filter (R x) ys) xs))
     = length (concat (map (\<lambda>y. filter (\<lambda>x. R x y) xs) ys))"
proof (induction xs)
  case Nil
  then show ?case by simp
next
  case (Cons x xs)
  then show ?case by (simp add: length_concat_filter_cons del: filter.simps)
qed

lemma course_modules_indicator:
  assumes "distinct (map m_id (modules d))"
  shows "length (course_modules_of d courseId l) = (if in_course d courseId l then 1 else 0)"
proof -
  have eq: "(\<lambda>m. l_module_id l = m_id m \<and> m_course_id m = courseId)
          = (\<lambda>m. m_id m = l_module_id l \<and> m_course_id m = courseId)"
    by auto
  show ?thesis
    unfolding course_modules_of_def in_course_def eq
    by (rule keyed_filter_indicator [OF assms])
qed

lemma total_lessons_count:
  assumes "distinct (map m_id (modules d))"
  shows "total_lessons d courseId = totalLessonCount d courseId"
  unfolding total_lessons_def totalLessonCount_def
  by (rule length_concat_indicator) (rule course_modules_indicator [OF assms])

lemma completed_lessons_count:
  assumes mods: "distinct (map m_id (modules d))" and one: "one_progress_per_lesson d"
  shows "completed_lessons d userId courseId = completedLessonCount d userId courseId"
proof -
  let ?F = "filter (\<lambda>up. up_user_id up = userId \<and> up_status up = Completed) (user_progress d)"
  let ?R = "\<lambda>up l. up_lesson_id up = Some (l_id l) \<and> in_course d courseId l"
  have inner: "length (concat (map (course_modules_of d courseId)
                  (filter (\<lambda>l. up_lesson_id up = Some (l_id l)) (lessons d))))
               = length (filter (?R up) (lessons d))" for up
  proof -
    have "length (concat (map (course_modules_of d courseId)
                  (filter (\<lambda>l. up_lesson_id up = Some (l_id l)) (lessons d))))
          = length (filter (in_course d courseId)
                  (filter (\<lambda>l. up_lesson_id up = Some (l_id l)) (lessons d)))"
      by (rule length_concat_indicator) (rule course_modules_indicator [OF mods])
    also have "\<dots> = length (filter (?R up) (lessons d))"
      by (simp add: conj_commute)
    finally show ?thesis .
  qed
  have "completed_lessons d userId courseId
          = length (concat (map (\<lambda>up. filter (?R up) (lessons d)) ?F))"
    unfolding completed_lessons_def by (rule length_concat_cong) (rule inner)
  also have "\<dots> = length (concat (map (\<lambda>l. filter (\<lambda>up. ?R up l) ?F) (lessons d)))"
    by (rule length_concat_filter_swap)
  also have "\<dots> = length (filter (\<lambda>l. in_course d courseId l \<and> lesson_completed d userId l)
                            (lessons d))"
  proof (rule length_concat_indicator)
    fix l
    let ?L = "filter (\<lambda>up. up_lesson_id up \<noteq> None) (user_progress d)"
    let ?Q = "\<lambda>up. up_status up = Completed \<and> in_course d courseId l"
    have "filter (\<lambda>up. ?R up l) ?F
            = filter (\<lambda>up. progress_key up = (userId, Some (l_id l)) \<and> ?Q up) ?L"
      by (simp add: progress_key_def) (rule filter_cong, auto)
    moreover have "length (filter (\<lambda>up. progress_key up = (userId, Some (l_id l)) \<and> ?Q up) ?L)
            = (if list_ex (\<lambda>up. progress_key up = (userId, Some (l_id l)) \<and> ?Q up) ?L
               then 1 else 0)"
      using one unfolding one_progress_per_lesson_def by (rule keyed_filter_indicator)
    moreover have "list_ex (\<lambda>up. progress_key up = (userId, Some (l_id l)) \<and> ?Q up) ?L
            \<longleftrightarrow> in_course d courseId l \<and> lesson_completed d userId l"
      by (auto simp: list_ex_iff lesson_completed_def progress_key_def)
    ultimately show "length (filter (\<lambda>up. ?R up l) ?F)
            = (if in_course d courseId l \<and> lesson_completed d userId l then 1 else 0)"
      by simp
  qed
  finally show ?thesis by (simp add: completedLessonCount_def)
qed

lemma completed_le_total: "completedLessonCount d userId courseId \<le> totalLessonCount d courseId"
proof -
  have "completedLessonCount d userId courseId
          = length (filter (lesson_completed d userId) (filter (in_course d courseId) (lessons d)))"
    by (simp add: completedLessonCount_def)
  also have "\<dots> \<le> length (filter (in_course d courseId) (lessons d))"
    by (rule length_filter_le)
  finally show ?thesis by (simp add: totalLessonCount_def)
qed

lemma two_places_bounds:
  assumes "0 \<le> x" "x \<le> 100"
  shows "0 \<le> two_places x" "two_places x \<le> 100"
proof -
  have "0 \<le> \<lfloor>x * 100 + 1 / 2\<rfloor>" using assms(1) by simp
  then show "0 \<le> two_places x" by (simp add: two_places_def)
  have "x * 100 + 1 / 2 < 10001" using assms(2) by simp
  then have "\<lfloor>x * 100 + 1 / 2\<rfloor> < 10001" by (simp add: floor_less_iff)
  then have "\<lfloor>x * 100 + 1 / 2\<rfloor> \<le> 10000" by simp
  then have "(of_int \<lfloor>x * 100 + 1 / 2\<rfloor> :: rat) \<le> 10000" by linarith
  then show "two_places x \<le> 100" by (simp add: two_places_def)
qed

lemma ratio_bounds:
  assumes "c \<le> t" "0 < t"
  shows "0 \<le> (of_nat c :: rat) / of_nat t * 100" "(of_nat c :: rat) / of_nat t * 100 \<le> 100"
proof -
  show "0 \<le> (of_nat c :: rat) / of_nat t * 100" by simp
  have "(of_nat c :: rat) \<le> of_nat t" using assms(1) by simp
  then have "(of_nat c :: rat) * 100 \<le> 100 * of_nat t" by simp
  then show "(of_nat c :: rat) / of_nat t * 100 \<le> 100"
    using assms(2) by (simp add: pos_divide_le_eq)
qed

text \<open>
  Claim C5 (amended). In a database whose module ids are unique and which holds at most
  one progress record per user and lesson, \<open>calculate_course_completion\<close> returns
  completedLessonCount / totalLessonCount * 100 rounded to two decimal places, the counts
  taken over the lessons under the course's modules and completed meaning a progress
  record with status completed; the result is 0 when the course has no lesson and always
  lies between 0 and 100.
\<close>

theorem course_completion:
  assumes "distinct (map m_id (modules d))" and "one_progress_per_lesson d"
  shows "calculate_course_completion d userId courseId
           = Inr (completion_percentage d userId courseId)
         \<and> 0 \<le> completion_percentage d userId courseId
         \<and> completion_percentage d userId courseId \<le> 100
         \<and> (totalLessonCount d courseId = 0 \<longrightarrow> completion_percentage d userId courseId = 0)"
proof (cases "totalLessonCount d courseId = 0")
  case True
  then show ?thesis
    using assms by (simp add: calculate_course_completion_def completion_percentage_def
        total_lessons_count)
next
  case False
  let ?x = "(of_nat (completedLessonCount d userId courseId) :: rat)
              / of_nat (totalLessonCount d courseId) * 100"
  from False have pos: "0 < totalLessonCount d courseId" by simp
  have b: "0 \<le> two_places ?x" "two_places ?x \<le> 100"
    using two_places_bounds ratio_bounds [OF completed_le_total pos] by blast+
  then have "to_decimal_5_2 ?x = Inr (two_places ?x)"
    by (simp add: to_decimal_5_2_def two_places_def Let_def)
  with False pos b show ?thesis
    using assms by (simp add: calculate_course_completion_def completion_percentage_def
        total_lessons_count completed_lessons_count)
qed

lemma db_one_of_three_counts:
  "totalLessonCount db_one_of_three 10 = 3" "completedLessonCount db_one_of_three 7 10 = 1"
  by (simp_all add: totalLessonCount_def completedLessonCount_def db_one_of_three_def
        in_course_def lesson_completed_def)

lemma db_one_of_three_code:
  "calculate_course_completion db_one_of_three 7 10 = Inr (3333 / 100)"
  by (simp add: calculate_course_completion_def total_lessons_def completed_lessons_def
        course_modules_of_def db_one_of_three_def to_decimal_5_2_def Let_def)

text \<open>With one lesson of three completed the function returns 33.33, which is not
  1 / 3 * 100.\<close>

theorem course_completion_counterexample:
  "calculate_course_completion db_one_of_three 7 10
     \<noteq> Inr (of_nat (completedLessonCount db_one_of_three 7 10)
              / of_nat (totalLessonCount db_one_of_three 10) * 100)"
  by (simp add: db_one_of_three_counts db_one_of_three_code)

theorem course_completion_witness:
  "calculate_course_completion db_one_of_three 7 10 = Inr (3333 / 100)
   \<and> completion_percentage db_one_of_three 7 10 = 3333 / 100"
proof -
  have m: "distinct (map m_id (modules db_one_of_three))"
    by (simp add: db_one_of_three_def)
  have p: "one_progress_per_lesson db_one_of_three"
    by (simp add: one_progress_per_lesson_def db_one_of_three_def progress_key_def)
  show ?thesis
    using course_completion [OF m p, of 7 10]
    by (simp add: completion_percentage_def db_one_of_three_counts two_places_def)
qed

subsection \<open>Level gate\<close>

text \<open>What the gate computes in a database with unique module ids and one progress
  record per user and lesson: the rounded average decides, so the gate opens from an
  average of 79.5 on.\<close>

lemma calculate_course_completion_value:
  assumes "distinct (map m_id (modules d))" and "one_progress_per_lesson d"
  shows "calculate_course_completion d userId courseId
           = Inr (completion_percentage d userId courseId)"
proof (cases "totalLessonCount d courseId = 0")
  case True
  then show ?thesis
    using assms by (simp add: calculate_course_completion_def completion_percentage_def
        total_lessons_count)
next
  case False
  let ?x = "(of_nat (completedLessonCount d userId courseId) :: rat)
              / of_nat (totalLessonCount d courseId) * 100"
  from False have pos: "0 < totalLessonCount d courseId" by simp
  have "two_places ?x \<le> 100"
    using two_places_bounds ratio_bounds [OF completed_le_total pos] by blast
  then have "to_decimal_5_2 ?x = Inr (two_places ?x)"
    by (simp add: to_decimal_5_2_def two_places_def Let_def)
  with False pos show ?thesis
    using assms by (simp add: calculate_course_completion_def completion_percentage_def
        total_lessons_count completed_lessons_count)
qed

lemma floor_half [simp]: "\<lfloor>1 / 2 :: rat\<rfloor> = 0"
  by (simp add: floor_eq_iff)

lemma collect_map:
  "(\<And>x. x \<in> set xs \<Longrightarrow> f x = Inr (g x)) \<Longrightarrow> collect (map f xs) = Inr (map g xs)"
  by (induction xs) simp_all

lemma getLevelCompletion_value:
  assumes "distinct (map m_id (modules d))" and "one_progress_per_lesson d"
  shows "getLevelCompletion d userId lvl = Inr (math_round (average_completion d userId lvl))"
proof -
  let ?cs = "level_courses d lvl"
  have c: "collect (map (\<lambda>c. calculate_course_completion d userId (c_id c)) ?cs)
             = Inr (map (\<lambda>c. completion_percentage d userId (c_id c)) ?cs)"
    by (rule collect_map) (rule calculate_course_completion_value [OF assms])
  show ?thesis
  proof (cases ?cs)
    case Nil
    then show ?thesis
      by (simp add: getLevelCompletion_def average_completion_def math_round_def)
  next
    case (Cons a as)
    then show ?thesis
      using c by (simp add: getLevelCompletion_def average_completion_def Let_def)
  qed
qed

lemma level_gate_decision:
  assumes "distinct (map m_id (modules d))" and "one_progress_per_lesson d"
  shows "checkLevelAccess d now userId cnt
           = Inr (if level cnt = Beginner
                     \<or> 80 \<le> math_round (average_completion d userId (level_below (level cnt)))
                  then has_access_only
                  else level_denied now (level_name (level_below (level cnt)))
                         (math_round (average_completion d userId (level_below (level cnt)))))"
  by (cases "level cnt")
     (simp_all add: checkLevelAccess_def getLevelCompletion_value [OF assms])

lemma math_round_threshold: "80 \<le> math_round x \<longleftrightarrow> 159 / 2 \<le> x"
proof -
  have "80 \<le> \<lfloor>x + 1 / 2\<rfloor> \<longleftrightarrow> of_int 80 \<le> x + 1 / 2"
    by (rule le_floor_iff)
  then show ?thesis by (auto simp: math_round_def)
qed

lemma db_rounding_completions:
  "calculate_course_completion db_rounding 7 11 = Inr 50"
  "calculate_course_completion db_rounding 7 12 = Inr (8889 / 100)"
  "calculate_course_completion db_rounding 7 13 = Inr 100"
  by (simp_all add: calculate_course_completion_def total_lessons_def completed_lessons_def
        course_modules_of_def db_rounding_def completed_row_def to_decimal_5_2_def Let_def)

lemma db_rounding_level: "getLevelCompletion db_rounding 7 Beginner = Inr 80"
proof -
  have "level_courses db_rounding Beginner
          = [courses db_rounding ! 1, courses db_rounding ! 2, courses db_rounding ! 3]"
    by (simp add: level_courses_def db_rounding_def)
  moreover have "c_id (courses db_rounding ! 1) = 11" "c_id (courses db_rounding ! 2) = 12"
    "c_id (courses db_rounding ! 3) = 13"
    by (simp_all add: db_rounding_def)
  ultimately show ?thesis
    by (simp add: getLevelCompletion_def db_rounding_completions math_round_def)
qed

lemma db_rounding_average: "average_completion db_rounding 7 Beginner = 7963 / 100"
  by (simp add: average_completion_def level_courses_def completion_percentage_def
        totalLessonCount_def completedLessonCount_def in_course_def lesson_completed_def
        two_places_def db_rounding_def completed_row_def Let_def)

text \<open>
  Claim C3, at an input where the code departs from it. The claim grants entry to the
  intermediate level exactly when the average completion of the published beginner courses
  is at least 80. \<open>getLevelCompletion\<close> rounds the average before \<open>checkLevelAccess\<close>
  compares it with 80: at an average of 79.63 the rounded value is 80 and access to the
  intermediate course is granted.
\<close>

theorem level_gate_rounds_up:
  "average_completion db_rounding 7 Beginner < 80
   \<and> getLevelCompletion db_rounding 7 Beginner = Inr 80
   \<and> evaluate db_rounding 0 7 10 Course = Inr (access_granted 0)"
proof -
  have u: "getUserWithSubscription db_rounding 7
             = Some \<lparr>user_id = 7, is_verified = True, subscription_status = None,
                     current_period_end = None, trial_end = None\<rparr>"
    by (simp add: getUserWithSubscription_def db_rounding_def left_join_subscriptions_def
          first_row_def user_of_def)
  have c: "getContentDetails db_rounding 10 Course
             = Some \<lparr>content_id = 10, level = Intermediate, is_published = True,
                     is_free = True, requires_subscription = False, prerequisites = Some []\<rparr>"
    by (simp add: getContentDetails_def db_rounding_def first_row_def content_of_course_def)
  have e: "checkEnrollment db_rounding 0 7 10 = has_access_only"
    by (simp add: checkEnrollment_def db_rounding_def first_row_def)
  show ?thesis
    by (simp add: db_rounding_average db_rounding_level evaluate_def u c e
          performAccessChecks_def checkSubscriptionAccess_def checkLevelAccess_def
          checkPrerequisites_def)
qed

subsection \<open>Prerequisites\<close>


lemma first_row_member: "first_row rows = Some r \<Longrightarrow> r \<in> set rows"
  by (cases rows) (simp_all add: first_row_def)








subsection \<open>Inactive users\<close>

lemma inactive_user_not_selected:
  assumes "\<forall>u\<in>set (users d). u_id u = userId \<longrightarrow> \<not> u_is_active u"
  shows "getUserWithSubscription d userId = None"
proof -
  from assms have "filter (\<lambda>u. u_id u = userId \<and> u_is_active u) (users d) = []"
    by (auto simp: filter_empty_conv)
  then show ?thesis by (simp add: getUserWithSubscription_def first_row_def)
qed

text \<open>
  Claim C10. When every row of the users table with the given id is inactive, the
  evaluation answers the refusal \<open>USER_NOT_FOUND\<close>, the very answer it gives on the
  database without that user, whatever the content is; on a cache miss
  \<open>checkContentAccess\<close> returns that refusal and leaves the cache alone.
\<close>

theorem inactive_user_not_found:
  assumes "\<forall>u\<in>set (users d). u_id u = userId \<longrightarrow> \<not> u_is_active u"
  shows "evaluate d now userId contentId contentType = Inr (user_not_found now)
         \<and> \<not> hasAccess (user_not_found now)
         \<and> code (user_not_found now) = Some USER_NOT_FOUND
         \<and> evaluate d now userId contentId contentType
             = evaluate (without_user d userId) now userId contentId contentType
         \<and> (get_content_access (redis svc) now (userId, contentId, contentType) = Inr None
              \<and> db svc = d
            \<longrightarrow> checkContentAccess svc now userId contentId contentType
                  = (user_not_found now, svc))"
proof -
  have n: "getUserWithSubscription d userId = None"
    using assms by (rule inactive_user_not_selected)
  have "getUserWithSubscription (without_user d userId) userId = None"
    by (rule inactive_user_not_selected) (simp add: without_user_def)
  with n show ?thesis
    by (simp add: evaluate_def user_not_found_def checkContentAccess_def)
qed

theorem inactive_user_not_found_witness:
  "evaluate db_inactive 0 7 10 Course = Inr (user_not_found 0)
   \<and> fst (checkContentAccess \<lparr>db = db_inactive, redis = redis_empty\<rparr> 0 7 10 Course)
       = user_not_found 0"
proof -
  have a: "\<forall>u\<in>set (users db_inactive). u_id u = 7 \<longrightarrow> \<not> u_is_active u"
    by (simp add: db_inactive_def)
  have g: "get_content_access (redis \<lparr>db = db_inactive, redis = redis_empty\<rparr>) 0 (7, 10, Course)
             = Inr None"
    by (simp add: get_content_access_def redis_empty_def lookup_def first_row_def)
  show ?thesis
    using inactive_user_not_found [OF a, of 0 10 Course "\<lparr>db = db_inactive, redis = redis_empty\<rparr>"] g
    by simp
qed

subsection \<open>Cache faults\<close>

lemma db_one_of_three_evaluate:
  "evaluate db_one_of_three 0 7 10 Course = Inr (not_enrolled 0)"
proof -
  have u: "getUserWithSubscription db_one_of_three 7 = Some usr_seven"
    by (simp add: getUserWithSubscription_def db_one_of_three_def left_join_subscriptions_def
          first_row_def user_of_def usr_seven_def)
  have c: "getContentDetails db_one_of_three 10 Course
             = Some \<lparr>content_id = 10, level = Beginner, is_published = True,
                     is_free = True, requires_subscription = False, prerequisites = Some []\<rparr>"
    by (simp add: getContentDetails_def db_one_of_three_def first_row_def content_of_course_def)
  have e: "checkEnrollment db_one_of_three 0 7 10 = not_enrolled 0"
    by (simp add: checkEnrollment_def db_one_of_three_def first_row_def not_enrolled_def)
  show ?thesis
    by (simp add: evaluate_def u c e usr_seven_def performAccessChecks_def
          checkSubscriptionAccess_def checkLevelAccess_def checkPrerequisites_def
          not_enrolled_def)
qed

lemma system_error_sel [simp]:
  "hasAccess (system_error now) = False" "code (system_error now) = Some SYSTEM_ERROR"
  by (simp_all add: system_error_def)

text \<open>
  Claim C6 (amended). When the cache read raises, \<open>checkContentAccess\<close> answers
  \<open>SYSTEM_ERROR\<close>; when the read misses, user and content are found and the cache
  write raises, it answers \<open>SYSTEM_ERROR\<close> as well; in both cases the store is left as
  it was and the computed decision is not returned. When the read misses and the user or
  the content is not found, no write is attempted and the computed refusal is returned.
\<close>

theorem cache_fault_is_system_error:
  "(failing (redis svc) GET
      \<longrightarrow> checkContentAccess svc now userId contentId contentType = (system_error now, svc))
   \<and> (get_content_access (redis svc) now (userId, contentId, contentType) = Inr None
        \<and> getUserWithSubscription (db svc) userId = Some usr
        \<and> getContentDetails (db svc) contentId contentType = Some cnt
        \<and> failing (redis svc) SETEX
      \<longrightarrow> checkContentAccess svc now userId contentId contentType = (system_error now, svc))
   \<and> (get_content_access (redis svc) now (userId, contentId, contentType) = Inr None
        \<and> (getUserWithSubscription (db svc) userId = None
            \<or> getContentDetails (db svc) contentId contentType = None)
      \<longrightarrow> (\<exists>r. evaluate (db svc) now userId contentId contentType = Inr r
               \<and> checkContentAccess svc now userId contentId contentType = (r, svc)))
   \<and> \<not> hasAccess (system_error now) \<and> code (system_error now) = Some SYSTEM_ERROR"
proof -
  have rd: "failing (redis svc) GET
      \<longrightarrow> checkContentAccess svc now userId contentId contentType = (system_error now, svc)"
    by (simp add: checkContentAccess_def get_content_access_def)
  have wr: "get_content_access (redis svc) now (userId, contentId, contentType) = Inr None
        \<and> getUserWithSubscription (db svc) userId = Some usr
        \<and> getContentDetails (db svc) contentId contentType = Some cnt
        \<and> failing (redis svc) SETEX
      \<longrightarrow> checkContentAccess svc now userId contentId contentType = (system_error now, svc)"
    by (simp add: checkContentAccess_def setex_content_access_def split: sum.splits)
  have nf: "get_content_access (redis svc) now (userId, contentId, contentType) = Inr None
        \<and> (getUserWithSubscription (db svc) userId = None
            \<or> getContentDetails (db svc) contentId contentType = None)
      \<longrightarrow> (\<exists>r. evaluate (db svc) now userId contentId contentType = Inr r
               \<and> checkContentAccess svc now userId contentId contentType = (r, svc))"
    by (auto simp: checkContentAccess_def evaluate_def split: option.splits)
  from rd wr nf show ?thesis by simp
qed

theorem cache_fault_is_system_error_witness:
  "checkContentAccess \<lparr>db = db_one_of_three, redis = redis_down\<rparr> 0 7 10 Course
     = (system_error 0, \<lparr>db = db_one_of_three, redis = redis_down\<rparr>)"
  using cache_fault_is_system_error
    [of "\<lparr>db = db_one_of_three, redis = redis_down\<rparr>" 0 7 10 Course]
  by (simp add: redis_down_def)

text \<open>With the cache down, the check of course 10 for user 7 answers
  \<open>SYSTEM_ERROR\<close>, while the direct evaluation answers \<open>NOT_ENROLLED\<close>.\<close>

theorem cache_fault_counterexample:
  "failing (redis \<lparr>db = db_one_of_three, redis = redis_down\<rparr>) GET
   \<and> evaluate db_one_of_three 0 7 10 Course = Inr (not_enrolled 0)
   \<and> fst (checkContentAccess \<lparr>db = db_one_of_three, redis = redis_down\<rparr> 0 7 10 Course)
       = system_error 0
   \<and> code (system_error 0) = Some SYSTEM_ERROR
   \<and> code (not_enrolled 0) = Some NOT_ENROLLED"
  by (simp add: db_one_of_three_evaluate checkContentAccess_def get_content_access_def
        redis_down_def not_enrolled_def)

subsection \<open>Cache hits and misses\<close>


lemma checkContentAccess_miss:
  assumes "get_content_access (redis svc) now (userId, contentId, contentType) = Inr None"
    and "\<not> failing (redis svc) SETEX"
    and "evaluate (db svc) now userId contentId contentType = Inr r"
  shows "fst (checkContentAccess svc now userId contentId contentType) = r"
  using assms
  by (auto simp: checkContentAccess_def evaluate_def setex_content_access_def
      split: option.splits sum.splits)

subsection \<open>Enrollment never succeeds\<close>

lemma getUserWithSubscription_id:
  assumes "getUserWithSubscription d userId = Some usr"
  shows "user_id usr = userId"
proof -
  from assms obtain u where u: "u \<in> set (users d)" "u_id u = userId"
    "usr \<in> set (left_join_subscriptions d u)"
    by (auto simp: getUserWithSubscription_def dest!: first_row_member)
  from u(3) have "user_id usr = u_id u"
    by (auto simp: left_join_subscriptions_def user_of_def split: list.splits)
  with u(2) show ?thesis by simp
qed

lemma getContentDetails_course_id:
  assumes "getContentDetails d contentId Course = Some cnt"
  shows "content_id cnt = contentId"
  using assms
  by (auto simp: getContentDetails_def content_of_course_def dest!: first_row_member)

lemma checkEnrollment_access:
  "hasAccess (checkEnrollment d now userId courseId) \<Longrightarrow> enrolled d userId courseId"
  by (auto simp: checkEnrollment_def enrolled_def list_ex_iff first_row_def
      split: list.splits option.splits if_splits dest!: filter_eq_ConsD)

lemma performAccessChecks_course_granted:
  assumes "performAccessChecks d now usr cnt Course = Inr r" "hasAccess r"
  shows "hasAccess (checkEnrollment d now (user_id usr) (content_id cnt))"
  using assms
  by (auto simp: performAccessChecks_def Let_def split: if_splits sum.splits)

lemma lookup_member:
  "lookup now entries key = Some v \<Longrightarrow> \<exists>expires. (key, expires, v) \<in> set entries"
  by (force simp: lookup_def dest!: first_row_member)

lemma grants_backed_store:
  assumes "list_all (grant_backed d) entries" "grant_backed d (key, expires, v)"
  shows "list_all (grant_backed d) (store now seconds key v entries)"
proof -
  obtain userId courseId contentType where k: "key = (userId, courseId, contentType)"
    by (cases key) auto
  from assms(2) have "grant_backed d (key, now + 1000 * seconds, v)"
    by (simp add: grant_backed_def k)
  with assms(1) show ?thesis by (simp add: store_def list_all_iff)
qed

lemma checkContentAccess_db [simp]:
  "db (snd (checkContentAccess svc now userId contentId contentType)) = db svc"
  by (simp add: checkContentAccess_def Let_def setex_content_access_def
      split: sum.splits option.splits)

lemma computed_grant_backed:
  assumes "getUserWithSubscription d userId = Some usr"
    and "getContentDetails d contentId contentType = Some cnt"
    and "performAccessChecks d now usr cnt contentType = Inr r"
  shows "grant_backed d ((userId, contentId, contentType), expires, r)"
proof (cases "contentType = Course \<and> hasAccess r")
  case True
  then have "hasAccess (checkEnrollment d now (user_id usr) (content_id cnt))"
    using assms(3) performAccessChecks_course_granted by blast
  moreover have "user_id usr = userId" using assms(1) by (rule getUserWithSubscription_id)
  moreover have "content_id cnt = contentId"
    using assms(2) True by (simp add: getContentDetails_course_id)
  ultimately have "enrolled d userId contentId"
    using checkEnrollment_access by metis
  then show ?thesis by (simp add: grant_backed_def)
next
  case False
  then show ?thesis by (auto simp: grant_backed_def)
qed

lemma checkContentAccess_backed:
  assumes "grants_backed svc"
  shows "grants_backed (snd (checkContentAccess svc now userId contentId contentType))"
proof -
  let ?key = "(userId, contentId, contentType)"
  have "grants_backed (svc\<lparr>redis := r\<rparr>)"
    if u: "getUserWithSubscription (db svc) userId = Some usr"
      and c: "getContentDetails (db svc) contentId contentType = Some cnt"
      and p: "performAccessChecks (db svc) now usr cnt contentType = Inr res"
      and w: "setex_content_access (redis svc) now ?key 300 res = Inr r" for usr cnt res r
  proof -
    from w have r: "content_access r = store now 300 ?key res (content_access (redis svc))"
      by (auto simp: setex_content_access_def split: if_splits)
    have "grant_backed (db svc) (?key, 0, res)"
      using u c p by (rule computed_grant_backed)
    with assms show ?thesis
      by (simp add: grants_backed_def r grants_backed_store)
  qed
  with assms show ?thesis
    by (auto simp: checkContentAccess_def Let_def split: sum.splits option.splits)
qed

lemma checkContentAccess_granted_enrolled:
  assumes "grants_backed svc"
    and "hasAccess (fst (checkContentAccess svc now userId courseId Course))"
  shows "enrolled (db svc) userId courseId"
proof -
  let ?key = "(userId, courseId, Course)"
  show ?thesis
  proof (cases "get_content_access (redis svc) now ?key")
    case (Inl e)
    with assms(2) show ?thesis by (simp add: checkContentAccess_def Let_def system_error_def)
  next
    case (Inr hit)
    show ?thesis
    proof (cases hit)
      case (Some cached)
      with Inr assms(2) have h: "hasAccess cached" by (simp add: checkContentAccess_def Let_def)
      from Inr Some have "lookup now (content_access (redis svc)) ?key = Some cached"
        by (auto simp: get_content_access_def split: if_splits)
      then obtain expires where "(?key, expires, cached) \<in> set (content_access (redis svc))"
        using lookup_member by fastforce
      with assms(1) have "grant_backed (db svc) (?key, expires, cached)"
        by (simp add: grants_backed_def list_all_iff)
      with h show ?thesis by (simp add: grant_backed_def)
    next
      case None
      show ?thesis
      proof (cases "getUserWithSubscription (db svc) userId")
        case no_user: None
        with Inr None assms(2) show ?thesis by (simp add: checkContentAccess_def Let_def)
      next
        case (Some usr)
        note u = this
        show ?thesis
        proof (cases "getContentDetails (db svc) courseId Course")
          case no_content: None
          with Inr None u assms(2) show ?thesis by (simp add: checkContentAccess_def Let_def)
        next
          case (Some cnt)
          note c = this
          show ?thesis
          proof (cases "performAccessChecks (db svc) now usr cnt Course")
            case raised: (Inl e)
            with Inr None u c assms(2) show ?thesis
              by (simp add: checkContentAccess_def Let_def system_error_def)
          next
            case computed: (Inr res)
            have "hasAccess res"
              using Inr None u c computed assms(2)
              by (auto simp: checkContentAccess_def Let_def system_error_def split: sum.splits)
            moreover have "grant_backed (db svc) (?key, 0, res)"
              using u c computed by (rule computed_grant_backed)
            ultimately show ?thesis by (simp add: grant_backed_def)
          qed
        qed
      qed
    qed
  qed
qed

lemma accessible_loop_backed:
  "grants_backed svc
     \<Longrightarrow> grants_backed (snd (accessible_loop svc now userId cs acc))
         \<and> db (snd (accessible_loop svc now userId cs acc)) = db svc"
proof (induction cs arbitrary: svc acc)
  case Nil
  then show ?case by simp
next
  case (Cons course cs)
  obtain access svc' where step: "checkContentAccess svc now userId (c_id course) Course = (access, svc')"
    by (cases "checkContentAccess svc now userId (c_id course) Course") auto
  have b: "grants_backed svc'"
    using checkContentAccess_backed [OF Cons.prems, of now userId "c_id course" Course] step
    by simp
  have d: "db svc' = db svc"
    using checkContentAccess_db [of svc now userId "c_id course" Course] step by simp
  from Cons.IH [OF b] d step show ?case by simp
qed

lemma getAccessibleContent_backed:
  assumes "grants_backed svc"
  shows "grants_backed (snd (getAccessibleContent svc now userId lvl))"
proof -
  let ?loop = "accessible_loop svc now userId (level_courses (db svc) lvl) []"
  have l: "grants_backed (snd ?loop)"
    using accessible_loop_backed [OF assms] by blast
  have "grants_backed (snd ?loop\<lparr>redis := r\<rparr>)"
    if "setex_accessible_content (redis (snd ?loop)) now (userId, lvl) 600 (fst ?loop) = Inr r"
    for r
    using that l by (auto simp: setex_accessible_content_def grants_backed_def split: if_splits)
  with assms l show ?thesis
    by (auto simp: getAccessibleContent_def split: sum.splits option.splits prod.splits)
qed

lemma clearUserContentCache_subset:
  assumes "clearUserContentCache r now userId = Inr r'"
  shows "set (content_access r') \<subseteq> set (content_access r)"
  using assms
  by (auto simp: clearUserContentCache_def keys_content_access_def keys_accessible_content_def
        del_content_access_def del_accessible_content_def
      split: if_splits sum.splits)

lemma clearUserContentCache_backed:
  assumes "grants_backed svc" "clearUserContentCache (redis svc) now userId = Inr r"
  shows "grants_backed (svc\<lparr>redis := r\<rparr>)"
  using assms(1) clearUserContentCache_subset [OF assms(2)]
  by (auto simp: grants_backed_def list_all_iff)

lemma grant_backed_mono:
  "set (enrollments d) \<subseteq> set (enrollments d') \<Longrightarrow> grant_backed d entry \<Longrightarrow> grant_backed d' entry"
  by (auto simp: grant_backed_def enrolled_def list_ex_iff)

lemma insert_enrollment_superset:
  "insert_enrollment d newId userId courseId = Inr d'
     \<Longrightarrow> set (enrollments d) \<subseteq> set (enrollments d')"
  by (auto simp: insert_enrollment_def split: if_splits)

lemma enrollUser_backed:
  assumes "grants_backed svc"
  shows "grants_backed (snd (enrollUser svc now newId userId courseId))"
proof -
  obtain access svc1 where step: "checkContentAccess svc now userId courseId Course = (access, svc1)"
    by (cases "checkContentAccess svc now userId courseId Course") auto
  have b: "grants_backed svc1"
    using checkContentAccess_backed [OF assms, of now userId courseId Course] step by simp
  have ins: "grants_backed (svc1\<lparr>db := d\<rparr>)"
    if "insert_enrollment (db svc1) newId userId courseId = Inr d" for d
    using b insert_enrollment_superset [OF that] grant_backed_mono
    by (auto simp: grants_backed_def list_all_iff)
  have clr: "grants_backed (svc1\<lparr>db := d, redis := r\<rparr>)"
    if "insert_enrollment (db svc1) newId userId courseId = Inr d"
      "clearUserContentCache (redis svc1) now userId = Inr r" for d r
    using clearUserContentCache_backed [of "svc1\<lparr>db := d\<rparr>" now userId r] ins that by simp
  from b ins clr step show ?thesis
    by (auto simp: enrollUser_def split: sum.splits)
qed

lemma reachable_backed: "reachable svc \<Longrightarrow> grants_backed svc"
proof (induction rule: reachable.induct)
  case (start svc)
  then show ?case by (simp add: grants_backed_def)
next
  case (check svc now userId contentId contentType)
  then show ?case by (simp add: checkContentAccess_backed)
next
  case (listing svc now userId lvl)
  then show ?case by (simp add: getAccessibleContent_backed)
next
  case (enroll svc now newId userId courseId)
  then show ?case by (simp add: enrollUser_backed)
next
  case (invalidate svc now userId r)
  then show ?case by (simp add: clearUserContentCache_backed)
next
  case (outage svc f)
  then show ?case by (simp add: grants_backed_def)
next
  case (external svc d)
  then show ?case by (auto simp: grants_backed_def grant_backed_def enrolled_def list_all_iff)
qed

lemma enrolled_filter:
  "enrolled d userId courseId
     \<longleftrightarrow> filter (\<lambda>e. e_user_id e = userId \<and> e_course_id e = courseId) (enrollments d) \<noteq> []"
  by (simp add: enrolled_def list_ex_iff filter_empty_conv)

lemma enrollUser_cases:
  assumes "grants_backed svc"
  shows "if hasAccess (fst (checkContentAccess svc now userId courseId Course))
         then enrolled (db svc) userId courseId
              \<and> fst (enrollUser svc now newId userId courseId)
                  = \<lparr>success = False, enroll_message = Some ''User already enrolled in course'',
                     enroll_code = Some ALREADY_ENROLLED, enrollmentId = None\<rparr>
         else fst (enrollUser svc now newId userId courseId)
                = denial_of (fst (checkContentAccess svc now userId courseId Course))"
proof -
  obtain access svc1 where step: "checkContentAccess svc now userId courseId Course = (access, svc1)"
    by (cases "checkContentAccess svc now userId courseId Course") auto
  have d: "db svc1 = db svc"
    using checkContentAccess_db [of svc now userId courseId Course] step by simp
  show ?thesis
  proof (cases "hasAccess access")
    case True
    then have "enrolled (db svc) userId courseId"
      using checkContentAccess_granted_enrolled [OF assms, of now userId courseId] step by simp
    moreover from this
    have "filter (\<lambda>e. e_user_id e = userId \<and> e_course_id e = courseId)
            (enrollments (db svc)) \<noteq> []"
      by (simp add: enrolled_filter)
    ultimately show ?thesis using True step d by (simp add: enrollUser_def)
  next
    case False
    with step show ?thesis by (simp add: enrollUser_def denial_of_def)
  qed
qed

lemma unenrolled_check:
  "\<not> enrolled d userId courseId \<Longrightarrow> checkEnrollment d now userId courseId = not_enrolled now"
  by (simp add: checkEnrollment_def enrolled_def not_enrolled_def first_row_def list_ex_iff
        filter_empty_conv [THEN iffD2] split: list.splits)

lemma unenrolled_evaluate:
  assumes "\<not> enrolled d userId courseId"
    and u: "getUserWithSubscription d userId = Some usr"
    and c: "getContentDetails d courseId Course = Some cnt"
    and "list_all passes (butlast (ordered_checks d now usr cnt Course))"
  shows "evaluate d now userId courseId Course = Inr (not_enrolled now)"
proof -
  have ids: "user_id usr = userId" "content_id cnt = courseId"
    using u c by (simp_all add: getUserWithSubscription_id getContentDetails_course_id)
  have last: "enrollment_check d now usr cnt Course = not_enrolled now"
    using assms(1) ids by (simp add: enrollment_check_def unenrolled_check)
  have "ordered_checks d now usr cnt Course
          = butlast (ordered_checks d now usr cnt Course) @ Inr (not_enrolled now) # []"
    by (simp add: ordered_checks_def last)
  moreover have "\<not> hasAccess (not_enrolled now)" by (simp add: not_enrolled_def)
  ultimately have "run_checks now (ordered_checks d now usr cnt Course) = Inr (not_enrolled now)"
    using assms(4) run_checks_first_failure by metis
  with u c show ?thesis by (simp add: evaluate_def performAccessChecks_run)
qed

text \<open>
  Claim C9. In every reachable state \<open>enrollUser\<close> does not answer with success. When
  the user has no enrollment row for the course, the access check it performs is a refusal
  and the answer is that refusal; it is \<open>NOT_ENROLLED\<close> when the check is computed
  afresh and every check before the enrollment step passes. When a row exists, the answer
  is \<open>ALREADY_ENROLLED\<close> or the refusal of the access check.
\<close>

theorem enroll_never_succeeds:
  assumes "reachable svc"
  shows "\<not> success (fst (enrollUser svc now newId userId courseId))
    \<and> (\<not> enrolled (db svc) userId courseId \<longrightarrow>
         \<not> hasAccess (fst (checkContentAccess svc now userId courseId Course))
         \<and> fst (enrollUser svc now newId userId courseId)
             = denial_of (fst (checkContentAccess svc now userId courseId Course)))
    \<and> (\<not> enrolled (db svc) userId courseId
        \<and> get_content_access (redis svc) now (userId, courseId, Course) = Inr None
        \<and> \<not> failing (redis svc) SETEX
        \<and> getUserWithSubscription (db svc) userId = Some usr
        \<and> getContentDetails (db svc) courseId Course = Some cnt
        \<and> list_all passes (butlast (ordered_checks (db svc) now usr cnt Course))
       \<longrightarrow> fst (enrollUser svc now newId userId courseId) = denial_of (not_enrolled now))
    \<and> (enrolled (db svc) userId courseId \<longrightarrow>
         enroll_code (fst (enrollUser svc now newId userId courseId)) = Some ALREADY_ENROLLED
         \<or> (\<not> hasAccess (fst (checkContentAccess svc now userId courseId Course))
            \<and> fst (enrollUser svc now newId userId courseId)
                = denial_of (fst (checkContentAccess svc now userId courseId Course))))"
proof -
  let ?access = "fst (checkContentAccess svc now userId courseId Course)"
  let ?result = "fst (enrollUser svc now newId userId courseId)"
  have b: "grants_backed svc" using assms by (rule reachable_backed)
  note cases = enrollUser_cases [OF b, of now userId courseId newId]
  have never: "\<not> success ?result"
    using cases by (cases "hasAccess ?access") (simp_all add: denial_of_def)
  have absent: "\<not> enrolled (db svc) userId courseId \<longrightarrow>
         \<not> hasAccess ?access \<and> ?result = denial_of ?access"
    using cases by (cases "hasAccess ?access") simp_all
  have step: "?result = denial_of (not_enrolled now)"
    if "\<not> enrolled (db svc) userId courseId"
      "get_content_access (redis svc) now (userId, courseId, Course) = Inr None"
      "\<not> failing (redis svc) SETEX"
      "getUserWithSubscription (db svc) userId = Some usr"
      "getContentDetails (db svc) courseId Course = Some cnt"
      "list_all passes (butlast (ordered_checks (db svc) now usr cnt Course))"
  proof -
    have "evaluate (db svc) now userId courseId Course = Inr (not_enrolled now)"
      using that(1,4,5,6) by (rule unenrolled_evaluate)
    with that(2,3) have "?access = not_enrolled now"
      by (rule checkContentAccess_miss)
    with absent that(1) show ?thesis by simp
  qed
  have present: "enrolled (db svc) userId courseId \<longrightarrow>
         enroll_code ?result = Some ALREADY_ENROLLED
         \<or> (\<not> hasAccess ?access \<and> ?result = denial_of ?access)"
    using cases by (cases "hasAccess ?access") simp_all
  from never absent step present show ?thesis by blast
qed

theorem enroll_never_succeeds_witness:
  "fst (enrollUser \<lparr>db = db_one_of_three, redis = redis_empty\<rparr> 0 99 7 10)
     = \<lparr>success = False, enroll_message = Some ''User not enrolled in course'',
        enroll_code = Some NOT_ENROLLED, enrollmentId = None\<rparr>"
proof -
  let ?svc = "\<lparr>db = db_one_of_three, redis = redis_empty\<rparr>"
  let ?cnt = "\<lparr>content_id = 10, level = Beginner, is_published = True,
               is_free = True, requires_subscription = False, prerequisites = Some []\<rparr>"
  have r: "reachable ?svc"
    by (rule reachable.start) (simp add: redis_empty_def)
  have n: "\<not> enrolled (db ?svc) 7 10"
    by (simp add: enrolled_def db_one_of_three_def)
  have m: "get_content_access (redis ?svc) 0 (7, 10, Course) = Inr None"
    by (simp add: get_content_access_def redis_empty_def lookup_def first_row_def)
  have f: "\<not> failing (redis ?svc) SETEX" by (simp add: redis_empty_def)
  have u: "getUserWithSubscription (db ?svc) 7 = Some usr_seven"
    by (simp add: getUserWithSubscription_def db_one_of_three_def left_join_subscriptions_def
          first_row_def user_of_def usr_seven_def)
  have c: "getContentDetails (db ?svc) 10 Course = Some ?cnt"
    by (simp add: getContentDetails_def db_one_of_three_def first_row_def content_of_course_def)
  have p: "list_all passes (butlast (ordered_checks (db ?svc) 0 usr_seven ?cnt Course))"
    by (simp add: ordered_checks_def passes_def published_check_def verified_check_def
          usr_seven_def checkSubscriptionAccess_def checkLevelAccess_def checkPrerequisites_def)
  from enroll_never_succeeds [OF r, of 0 99 7 10 usr_seven ?cnt]
  have "\<not> enrolled (db ?svc) 7 10
        \<and> get_content_access (redis ?svc) 0 (7, 10, Course) = Inr None
        \<and> \<not> failing (redis ?svc) SETEX
        \<and> getUserWithSubscription (db ?svc) 7 = Some usr_seven
        \<and> getContentDetails (db ?svc) 10 Course = Some ?cnt
        \<and> list_all passes (butlast (ordered_checks (db ?svc) 0 usr_seven ?cnt Course))
       \<longrightarrow> fst (enrollUser ?svc 0 99 7 10) = denial_of (not_enrolled 0)"
    by (elim conjE)
  with n m f u c p have "fst (enrollUser ?svc 0 99 7 10) = denial_of (not_enrolled 0)"
    by blast
  then show ?thesis
    by (simp add: denial_of_def not_enrolled_def createAccessResult_def)
qed

subsection \<open>Enrollment acts on the answer of the cached check\<close>







subsection \<open>Two enrollments at once\<close>

lemma enrollUser_phases:
  "enrollUser svc now newId userId courseId
     = (case enroll_gate svc now userId courseId of
          (gate, svc1) \<Rightarrow> finish gate svc1 now newId userId courseId)"
  by (cases "checkContentAccess svc now userId courseId Course")
     (simp add: enrollUser_def enroll_gate_def enroll_write_def finish_def)

lemma serial_enrolls_never_succeed:
  assumes "reachable svc"
  shows "\<not> success (fst (serial_enrolls svc now1 now2 idA idB userId courseId))
         \<and> \<not> success (fst (snd (serial_enrolls svc now1 now2 idA idB userId courseId)))"
proof -
  obtain a s1 where A: "enrollUser svc now1 idA userId courseId = (a, s1)"
    by (cases "enrollUser svc now1 idA userId courseId") auto
  obtain b s2 where B: "enrollUser s1 now2 idB userId courseId = (b, s2)"
    by (cases "enrollUser s1 now2 idB userId courseId") auto
  have b0: "grants_backed svc" using assms by (rule reachable_backed)
  have b1: "grants_backed s1" using enrollUser_backed [OF b0, of now1 idA userId courseId] A by simp
  have "\<not> success a"
    using enrollUser_cases [OF b0, of now1 userId courseId idA] A
    by (cases "hasAccess (fst (checkContentAccess svc now1 userId courseId Course))")
       (simp_all add: denial_of_def)
  moreover have "\<not> success b"
    using enrollUser_cases [OF b1, of now2 userId courseId idB] B
    by (cases "hasAccess (fst (checkContentAccess s1 now2 userId courseId Course))")
       (simp_all add: denial_of_def)
  ultimately show ?thesis using A B by (simp add: serial_enrolls_def)
qed

lemma write_conflict:
  assumes "enrolled (db svc) userId courseId"
  shows "enroll_write svc now newId userId courseId = (enroll_system_error, svc)"
proof -
  have "insert_enrollment (db svc) newId userId courseId = Inl Unique_violation"
    using assms by (auto simp: insert_enrollment_def enrolled_def list_ex_iff)
  then show ?thesis by (simp add: enroll_write_def)
qed

lemma write_success_enrolled:
  assumes "enroll_write svc now newId userId courseId = (result, svc')" "success result"
  shows "enrolled (db svc') userId courseId"
  using assms
  by (auto simp: enroll_write_def insert_enrollment_def enrolled_def enroll_system_error_def
      split: sum.splits if_splits)

lemma race_loser_system_error:
  assumes "enroll_gate svc now userId courseId = (None, svc1)"
    and "enroll_gate svc1 now userId courseId = (None, svc2)"
    and "success (fst (racing_enrolls svc now idA idB userId courseId))"
  shows "fst (snd (racing_enrolls svc now idA idB userId courseId)) = enroll_system_error"
proof -
  obtain a s3 where w: "enroll_write svc2 now idA userId courseId = (a, s3)"
    by (cases "enroll_write svc2 now idA userId courseId") auto
  with assms have "success a"
    by (simp add: racing_enrolls_def finish_def split: prod.splits)
  with w have "enrolled (db s3) userId courseId" by (rule write_success_enrolled)
  then have "enroll_write s3 now idB userId courseId = (enroll_system_error, s3)"
    by (rule write_conflict)
  with assms(1,2) w show ?thesis
    by (simp add: racing_enrolls_def finish_def)
qed

text \<open>
  Claim C8, at inputs where the code departs from it. The claim gives two calls in flight
  for the same user and course exactly one success and the other \<open>ALREADY_ENROLLED\<close>.
  Run one after the other on a cold cache, both calls are refused with \<open>NOT_ENROLLED\<close>
  and none succeeds. Where both pass the gate on a cached grant before either writes, the
  first insert succeeds and the second meets the uniqueness constraint, which the handler
  answers with \<open>SYSTEM_ERROR\<close>.
\<close>

theorem concurrent_enrolls_outcomes:
  "fst (serial_enrolls \<lparr>db = db_one_of_three, redis = redis_empty\<rparr> 0 1 98 99 7 10)
     = denial_of (not_enrolled 0)
   \<and> fst (snd (serial_enrolls \<lparr>db = db_one_of_three, redis = redis_empty\<rparr> 0 1 98 99 7 10))
     = denial_of (not_enrolled 0)
   \<and> enroll_code (denial_of (not_enrolled 0)) = Some NOT_ENROLLED
   \<and> \<not> success (denial_of (not_enrolled 0))
   \<and> fst (racing_enrolls \<lparr>db = db_one_of_three, redis = redis_stale_grant\<rparr> 0 98 99 7 10)
     = enrolled_as 98
   \<and> fst (snd (racing_enrolls \<lparr>db = db_one_of_three, redis = redis_stale_grant\<rparr> 0 98 99 7 10))
     = enroll_system_error
   \<and> enroll_code enroll_system_error = Some SYSTEM_ERROR"
proof -
  let ?empty = "\<lparr>db = db_one_of_three, redis = redis_empty\<rparr>"
  let ?grant = "\<lparr>db = db_one_of_three, redis = redis_stale_grant\<rparr>"
  let ?cnt = "\<lparr>content_id = 10, level = Beginner, is_published = True,
               is_free = True, requires_subscription = False, prerequisites = Some []\<rparr>"
  let ?cached = "store 0 300 (7, 10, Course) (not_enrolled 0) []"
  let ?s1 = "\<lparr>db = db_one_of_three,
              redis = \<lparr>content_access = ?cached, accessible_content = [],
                       failing = (\<lambda>c. False)\<rparr>\<rparr>"
  have u: "getUserWithSubscription db_one_of_three 7 = Some usr_seven"
    by (simp add: getUserWithSubscription_def db_one_of_three_def left_join_subscriptions_def
          first_row_def user_of_def usr_seven_def)
  have c: "getContentDetails db_one_of_three 10 Course = Some ?cnt"
    by (simp add: getContentDetails_def db_one_of_three_def first_row_def content_of_course_def)
  have p: "performAccessChecks db_one_of_three 0 usr_seven ?cnt Course = Inr (not_enrolled 0)"
    using db_one_of_three_evaluate by (simp add: evaluate_def u c)
  have a1: "checkContentAccess ?empty 0 7 10 Course = (not_enrolled 0, ?s1)"
    by (simp add: checkContentAccess_def get_content_access_def redis_empty_def lookup_def
          first_row_def u c p setex_content_access_def)
  have ne: "\<not> hasAccess (not_enrolled 0)" by (simp add: not_enrolled_def)
  have e1: "enrollUser ?empty 0 98 7 10 = (denial_of (not_enrolled 0), ?s1)"
    by (simp add: enrollUser_def a1 denial_of_def ne)
  have a2: "checkContentAccess ?s1 1 7 10 Course = (not_enrolled 0, ?s1)"
    by (simp add: checkContentAccess_def get_content_access_def lookup_def first_row_def
          store_def live_def)
  have e2: "enrollUser ?s1 1 99 7 10 = (denial_of (not_enrolled 0), ?s1)"
    by (simp add: enrollUser_def a2 denial_of_def ne)
  have serial: "serial_enrolls ?empty 0 1 98 99 7 10
                  = (denial_of (not_enrolled 0), denial_of (not_enrolled 0), ?s1)"
    by (simp add: serial_enrolls_def e1 e2)
  have g: "checkContentAccess ?grant 0 7 10 Course = (access_granted (- 60000), ?grant)"
    by (simp add: checkContentAccess_def get_content_access_def redis_stale_grant_def
          lookup_def first_row_def live_def)
  have en: "enrollments db_one_of_three = []" by (simp add: db_one_of_three_def)
  have gate: "enroll_gate ?grant 0 7 10 = (None, ?grant)"
    by (simp add: enroll_gate_def g access_granted_def en)
  obtain s3 where w: "enroll_write ?grant 0 98 7 10 = (enrolled_as 98, s3)"
    by (simp add: enroll_write_def insert_enrollment_def db_one_of_three_def
          clearUserContentCache_def keys_content_access_def keys_accessible_content_def
          del_content_access_def redis_stale_grant_def live_def enrolled_as_def)
  have "success (enrolled_as 98)" by (simp add: enrolled_as_def)
  with w have "enrolled (db s3) 7 10" by (rule write_success_enrolled)
  then have l: "enroll_write s3 0 99 7 10 = (enroll_system_error, s3)"
    by (rule write_conflict)
  have race: "racing_enrolls ?grant 0 98 99 7 10 = (enrolled_as 98, enroll_system_error, s3)"
    by (simp add: racing_enrolls_def gate finish_def w l)
  from serial race show ?thesis
    by (simp add: denial_of_def not_enrolled_def enroll_system_error_def)
qed

end
